theory Spec2Isabelle
  imports Main "HOL-Library.Char_ord" "HOL-Library.List_Lexorder" "HOL-Library.Sublist"
    "HOL-Library.AList"
begin

section \<open>Python strings\<close>

text \<open>
  A Python \<open>str\<close> is modelled as a \<open>string\<close>: a list of 8-bit characters, read as the
  code points below 256. The tables of whitespace, line boundaries and case mapping are
  Python's for that range.
\<close>

definition isspace :: "char \<Rightarrow> bool" where
  "isspace c = (c \<in> set [CHR 0x09, CHR 0x0A, CHR 0x0B, CHR 0x0C, CHR 0x0D, CHR 0x1C,
     CHR 0x1D, CHR 0x1E, CHR 0x1F, CHR 0x20, CHR 0x85, CHR 0xA0])"

text \<open>\<open>s.strip()\<close>\<close>

definition strip :: "string \<Rightarrow> string" where
  "strip s = rev (dropWhile isspace (rev (dropWhile isspace s)))"

text \<open>\<open>sep.join(xs)\<close>\<close>

fun join :: "string \<Rightarrow> string list \<Rightarrow> string" where
  "join sep [] = []"
| "join sep [x] = x"
| "join sep (x # y # ys) = x @ sep @ join sep (y # ys)"

text \<open>\<open>q in s\<close> for strings: \<open>q\<close> is a contiguous part of \<open>s\<close>.\<close>

fun contains :: "string \<Rightarrow> string \<Rightarrow> bool" where
  "contains [] q = (q = [])"
| "contains (c # cs) q = (prefix q (c # cs) \<or> contains cs q)"

definition lower_char :: "char \<Rightarrow> char" where
  "lower_char c =
     (let n = (of_char c :: nat)
      in if (65 \<le> n \<and> n \<le> 90) \<or> (192 \<le> n \<and> n \<le> 222 \<and> n \<noteq> 215)
         then char_of (n + 32) else c)"

text \<open>\<open>s.lower()\<close>\<close>

definition lower :: "string \<Rightarrow> string" where
  "lower s = map lower_char s"

text \<open>\<open>str(n)\<close> for an integer: decimal digits, a minus sign when negative.\<close>

definition digit_char :: "nat \<Rightarrow> char" where
  "digit_char d = char_of (48 + d)"

function str_nat :: "nat \<Rightarrow> string" where
  "str_nat n = (if n < 10 then [digit_char n] else str_nat (n div 10) @ [digit_char (n mod 10)])"
  by pat_completeness auto
termination
  by (relation "measure id") auto

declare str_nat.simps [simp del]

definition str_int :: "int \<Rightarrow> string" where
  "str_int i = (if i < 0 then CHR ''-'' # str_nat (nat (- i)) else str_nat (nat i))"

text \<open>The apostrophe that the messages of the source put around a name.\<close>

definition quote :: string where
  "quote = [CHR 0x27]"

text \<open>\<open>s.splitlines()\<close>: the line boundaries are removed; a final boundary opens no line.\<close>

definition is_linebreak :: "char \<Rightarrow> bool" where
  "is_linebreak c = (c \<in> set [CHR 0x0A, CHR 0x0B, CHR 0x0C, CHR 0x0D, CHR 0x1C, CHR 0x1D,
     CHR 0x1E, CHR 0x85])"

fun splitlines_from :: "string \<Rightarrow> string \<Rightarrow> string list" where
  "splitlines_from cur [] = (if cur = [] then [] else [cur])"
| "splitlines_from cur (c # cs) =
     (if c = CHR 0x0D then
        (case cs of
           [] \<Rightarrow> cur # splitlines_from [] cs
         | d # ds \<Rightarrow>
             if d = CHR 0x0A then cur # splitlines_from [] ds
             else cur # splitlines_from [] cs)
      else if is_linebreak c then cur # splitlines_from [] cs
      else splitlines_from (cur @ [c]) cs)"

definition splitlines :: "string \<Rightarrow> string list" where
  "splitlines s = splitlines_from [] s"

text \<open>\<open>s.split(c)\<close> for a one-character separator.\<close>

fun split_on :: "char \<Rightarrow> string \<Rightarrow> string list" where
  "split_on c [] = [[]]"
| "split_on c (x # xs) =
     (if x = c then [] # split_on c xs
      else (case split_on c xs of
              [] \<Rightarrow> [[x]]
            | h # t \<Rightarrow> (x # h) # t))"

text \<open>\<open>s.zfill(width)\<close>: zeros on the left, after a leading sign.\<close>

definition zfill :: "string \<Rightarrow> nat \<Rightarrow> string" where
  "zfill s width =
     (if width \<le> length s then s
      else (case s of
              [] \<Rightarrow> replicate width (CHR ''0'')
            | c # cs \<Rightarrow>
                if c = CHR ''+'' \<or> c = CHR ''-''
                then c # replicate (width - length s) (CHR ''0'') @ cs
                else replicate (width - length s) (CHR ''0'') @ s))"

text \<open>The decimal digits: what \<open>\d\<close> and \<open>int\<close> accept among the code points below 256.\<close>

definition isdigit :: "char \<Rightarrow> bool" where
  "isdigit c = (CHR ''0'' \<le> c \<and> c \<le> CHR ''9'')"

definition digit_value :: "char \<Rightarrow> nat" where
  "digit_value c = of_char c - 48"

definition digits_value :: "string \<Rightarrow> nat" where
  "digits_value ds = foldl (\<lambda>a c. 10 * a + digit_value c) 0 ds"

text \<open>
  The exceptions a modelled call can end with. \<open>Unmodelled\<close> is no exception of Python: it
  marks a glob pattern made of \<open>**\<close> components alone, which no call of the source builds.
\<close>

datatype error =
    NotImplementedError
  | ValueError
  | IndexError
  | KeyError
  | FileNotFoundError
  | OSError
  | Unmodelled

text \<open>
  \<open>int(s)\<close>: surrounding whitespace, an optional sign, then groups of digits separated by
  single underscores; anything else raises \<open>ValueError\<close>.
\<close>

definition py_int :: "string \<Rightarrow> error + int" where
  "py_int s =
     (let t = strip s;
          neg = prefix ''-'' t;
          body = (if prefix ''-'' t \<or> prefix ''+'' t then drop 1 t else t);
          groups = split_on (CHR ''_'') body
      in if list_all (\<lambda>g. g \<noteq> [] \<and> list_all isdigit g) groups
         then Inr ((if neg then - 1 else 1) * int (digits_value (concat groups)))
         else Inl ValueError)"

text \<open>\<open>f"{n:04d}"\<close>: at least four characters, zeros after the sign.\<close>

definition format_04d :: "int \<Rightarrow> string" where
  "format_04d n = zfill (str_int n) 4"


text \<open>The section sign U+00A7 of a compliance message.\<close>

definition section_sign :: string where
  "section_sign = [CHR 0xA7]"

section \<open>Regular expressions of the source\<close>

text \<open>
  \<open>(.+)$\<close> tried at the start of a string, without \<open>re.MULTILINE\<close>: the group is the run of
  characters other than a newline, not empty, and it ends the string or stands before the
  string's final newline.
\<close>

definition dot_plus_end :: "string \<Rightarrow> string option" where
  "dot_plus_end s =
     (let g = takeWhile (\<lambda>c. c \<noteq> CHR 0x0A) s;
          r = dropWhile (\<lambda>c. c \<noteq> CHR 0x0A) s
      in if g \<noteq> [] \<and> (r = [] \<or> r = [CHR 0x0A]) then Some g else None)"

text \<open>
  \<open>re.match(rf"^{'#' * level} (.+)$", line)\<close>: the group of a heading line, \<open>None\<close> when
  the line is no heading. A count below one repeats \<open>#\<close> zero times.
\<close>

definition heading_match :: "int \<Rightarrow> string \<Rightarrow> string option" where
  "heading_match level line =
     (let p = replicate (nat level) (CHR ''#'') @ '' ''
      in if prefix p line then dot_plus_end (drop (length p) line) else None)"

text \<open>
  \<open>re.match(r"^# (.+)$", content, re.MULTILINE)\<close>: \<open>match\<close> tries the start of the content
  only, so the title is found on the first line or not at all.
\<close>

definition title_match :: "string \<Rightarrow> string option" where
  "title_match content =
     (if prefix ''# '' content
      then (let g = takeWhile (\<lambda>c. c \<noteq> CHR 0x0A) (drop 2 content)
            in if g \<noteq> [] then Some g else None)
      else None)"

text \<open>\<open>re.match(r"(\d+)\.", title)\<close>: the leading digits, when a dot follows them.\<close>

definition num_match :: "string \<Rightarrow> string option" where
  "num_match title =
     (let ds = takeWhile isdigit title
      in if ds \<noteq> [] \<and> prefix ''.'' (drop (length ds) title) then Some ds else None)"

section \<open>Section parser\<close>

text \<open>
  The dictionary \<open>sections\<close> is an association list in insertion order: storing under a key
  that is present replaces its value where the key stands, storing under a new key appends,
  as a Python \<open>dict\<close> does.
\<close>

definition flush :: "string \<Rightarrow> string list \<Rightarrow> (string \<times> string) list \<Rightarrow> (string \<times> string) list" where
  "flush current_title current_lines sections =
     (if current_title \<noteq> []
      then AList.update current_title (strip (join ''\<newline>'' current_lines)) sections
      else sections)"

fun parse_loop ::
  "int \<Rightarrow> string list \<Rightarrow> string \<Rightarrow> string list \<Rightarrow> (string \<times> string) list \<Rightarrow> (string \<times> string) list" where
  "parse_loop level [] current_title current_lines sections =
     flush current_title current_lines sections"
| "parse_loop level (line # rest) current_title current_lines sections =
     (case heading_match level line of
        Some g \<Rightarrow>
          parse_loop level rest (strip g) [line] (flush current_title current_lines sections)
      | None \<Rightarrow> parse_loop level rest current_title (current_lines @ [line]) sections)"

definition parse_sections :: "string \<Rightarrow> int \<Rightarrow> (string \<times> string) list" where
  "parse_sections content level = parse_loop level (splitlines content) [] [] []"

section \<open>The governance root\<close>

text \<open>
  A directory is the list of its files, name and text, in the order the system lists them.
  The decision-record directory holds readable text files only and no subdirectory. The
  three documents of the root are \<open>None\<close> when the file does not exist.

  The file system around the decision-record directory is a parameter of the model, in two
  fields. \<open>above_adrs r cs\<close> is what the system yields when a glob pattern has climbed to
  the parent of the directory through \<open>..\<close> and goes on from there with the components
  \<open>cs\<close>: the files matched, path and text, in the system's order (readable text files,
  like those of the directory), or \<open>None\<close> when the system refuses a path on the way and the
  walk ends with \<open>OSError\<close>. \<open>name_refused r c\<close> says that the system refuses to examine a
  child of the directory under the name \<open>c\<close>, as it does for a name longer than it allows.
\<close>

type_synonym directory = "(string \<times> string) list"

record governance_root =
  standards :: "string option"
  architecture :: "string option"
  templates_readme :: "string option"
  templates_markdownlint :: "string option"
  adrs :: directory
  above_adrs :: "string list \<Rightarrow> directory option"
  name_refused :: "string \<Rightarrow> bool"

subsection \<open>Globbing\<close>

text \<open>
  The text between \<open>[\<close> and its closing \<open>]\<close>, and the pattern after it; \<open>None\<close> when the
  bracket is never closed. A \<open>!\<close> and then a \<open>]\<close> right after the opening bracket belong to
  the text.
\<close>

definition bracket_split :: "string \<Rightarrow> (string \<times> string) option" where
  "bracket_split ps =
     (let neg = (if prefix ''!'' ps then ''!'' else []);
          a = drop (length neg) ps;
          fb = (if prefix '']'' a then '']'' else []);
          b = drop (length fb) a;
          body = takeWhile (\<lambda>c. c \<noteq> CHR '']'') b;
          r = dropWhile (\<lambda>c. c \<noteq> CHR '']'') b
      in if r = [] then None else Some (neg @ fb @ body, tl r))"

fun in_class :: "char \<Rightarrow> string \<Rightarrow> bool" where
  "in_class c [] = False"
| "in_class c [a] = (c = a)"
| "in_class c [a, b] = (c = a \<or> c = b)"
| "in_class c (a # b # d # rest) =
     (if b = CHR ''-'' then (a \<le> c \<and> c \<le> d) \<or> in_class c rest
      else c = a \<or> in_class c (b # d # rest))"

definition class_match :: "string \<Rightarrow> char \<Rightarrow> bool" where
  "class_match stuff c =
     (if prefix ''!'' stuff then \<not> in_class c (drop 1 stuff) else in_class c stuff)"

lemma bracket_split_shorter:
  "bracket_split ps = Some (stuff, rest) \<Longrightarrow> length rest < Suc (length ps)"
proof -
  assume h: "bracket_split ps = Some (stuff, rest)"
  define a where "a = drop (length (if prefix ''!'' ps then ''!'' else [])) ps"
  define b where "b = drop (length (if prefix '']'' a then '']'' else [])) a"
  from h have r: "rest = tl (dropWhile (\<lambda>c. c \<noteq> CHR '']'') b)"
    by (auto simp: bracket_split_def Let_def a_def b_def split: if_splits)
  have "length (dropWhile (\<lambda>c. c \<noteq> CHR '']'') b) \<le> length b"
    by (rule length_dropWhile_le)
  moreover have "length b \<le> length ps"
    by (simp add: a_def b_def)
  ultimately show ?thesis using r by simp
qed

text \<open>
  \<open>fnmatch\<close> on one path component, letter case kept: \<open>*\<close> is any run of characters,
  \<open>?\<close> any one character, \<open>[...]\<close> a class of characters and ranges (negated after \<open>!\<close>),
  an unclosed \<open>[\<close> stands for itself.
\<close>

function fnmatch :: "string \<Rightarrow> string \<Rightarrow> bool" where
  "fnmatch [] n = (n = [])"
| "fnmatch (p # ps) [] =
     (if p = CHR ''*'' then fnmatch ps [] else False)"
| "fnmatch (p # ps) (c # cs) =
     (if p = CHR ''*'' then fnmatch ps (c # cs) \<or> fnmatch (p # ps) cs
      else if p = CHR ''?'' then fnmatch ps cs
      else if p = CHR ''['' then
        (case bracket_split ps of
           None \<Rightarrow> c = CHR ''['' \<and> fnmatch ps cs
         | Some (stuff, rest) \<Rightarrow> class_match stuff c \<and> fnmatch rest cs)
      else p = c \<and> fnmatch ps cs)"
  by pat_completeness auto
termination
  by (relation "measure (\<lambda>(p, n). length p + length n)")
     (auto dest: bracket_split_shorter)

declare fnmatch.simps [simp del]

text \<open>
  The components of a relative pattern, as \<open>pathlib\<close> parses it: split at \<open>/\<close>, empty
  components and \<open>.\<close> dropped.
\<close>

definition path_parts :: "string \<Rightarrow> string list" where
  "path_parts p = filter (\<lambda>c. c \<noteq> [] \<and> c \<noteq> ''.'') (split_on (CHR ''/'') p)"

text \<open>A component that \<open>pathlib\<close> matches against the names of a directory.\<close>

definition is_wildcard_pattern :: "string \<Rightarrow> bool" where
  "is_wildcard_pattern pat =
     (CHR ''*'' \<in> set pat \<or> CHR ''?'' \<in> set pat \<or> CHR ''['' \<in> set pat)"

text \<open>
  The walk of the selectors from the decision-record directory, component by component
  (pathlib of Python 3.11 and 3.12). A \<open>**\<close> component stands for the directory itself,
  as there is none below it. A \<open>..\<close> component climbs to the parent, where the file system
  around the directory answers. The last component is matched against the file names when
  it is a wildcard pattern and looked up as a name otherwise. Any other component would
  have to be a subdirectory: a wildcard pattern finds none among the entries, and a name is
  examined by the system, which refuses it or finds nothing (Python 3.12 compares a name
  with the entries instead and refuses none). A pattern of \<open>**\<close> components alone yields
  the directory itself, which is no file: it is \<open>Unmodelled\<close>.
\<close>

fun glob_walk :: "governance_root \<Rightarrow> string list \<Rightarrow> error + directory" where
  "glob_walk r [] = Inl Unmodelled"
| "glob_walk r (c # cs) =
     (if c = ''**'' then glob_walk r cs
      else if c = ''..'' then
        (case above_adrs r cs of None \<Rightarrow> Inl OSError | Some files \<Rightarrow> Inr files)
      else if is_wildcard_pattern c then
        (if cs = [] then Inr (filter (\<lambda>e. fnmatch c (fst e)) (adrs r)) else Inr [])
      else if name_refused r c then Inl OSError
      else if cs = [] then Inr (filter (\<lambda>e. fst e = c) (adrs r))
      else Inr [])"

text \<open>
  \<open>list(_adrs_dir().glob(pattern))\<close>. An empty pattern and a \<open>**\<close> inside a longer
  component raise \<open>ValueError\<close>, a pattern that starts at the file-system root raises
  \<open>NotImplementedError\<close>, and a pattern without any component raises \<open>IndexError\<close>, all
  before the walk.
\<close>

definition glob :: "governance_root \<Rightarrow> string \<Rightarrow> error + directory" where
  "glob r pat =
     (if pat = [] then Inl ValueError
      else if prefix ''/'' pat then Inl NotImplementedError
      else (let comps = path_parts pat
            in if comps = [] then Inl IndexError
               else if list_ex (\<lambda>c. c \<noteq> ''**'' \<and> contains c ''**'') comps then Inl ValueError
               else glob_walk r comps))"

text \<open>\<open>sorted(paths)\<close> of one directory: by file name.\<close>

definition sorted_paths :: "directory \<Rightarrow> directory" where
  "sorted_paths d = sort_key fst d"

text \<open>\<open>path.stem\<close>: the name without its last suffix.\<close>

definition stem :: "string \<Rightarrow> string" where
  "stem name =
     (let suffix = takeWhile (\<lambda>c. c \<noteq> CHR ''.'') (rev name);
          i = length name - length suffix - 1
      in if CHR ''.'' \<in> set name \<and> 0 < i \<and> i < length name - 1 then take i name else name)"

section \<open>Lookups\<close>

subsection \<open>\<open>get_standard\<close>\<close>

text \<open>
  The loop over \<open>sections.items()\<close>: the body of the first section whose leading digits
  are, character by character, the trimmed input.
\<close>

fun section_by_number :: "string \<Rightarrow> (string \<times> string) list \<Rightarrow> string option" where
  "section_by_number wanted [] = None"
| "section_by_number wanted ((title, body) # rest) =
     (case num_match title of
        None \<Rightarrow> section_by_number wanted rest
      | Some g \<Rightarrow> if g = wanted then Some body else section_by_number wanted rest)"

definition keyword_sections :: "string \<Rightarrow> (string \<times> string) list \<Rightarrow> (string \<times> string) list" where
  "keyword_sections query sections =
     filter (\<lambda>(title, body). contains (lower title) query \<or> contains (lower body) query)
       sections"

definition get_standard :: "governance_root \<Rightarrow> string \<Rightarrow> error + string" where
  "get_standard r section =
     (case standards r of
        None \<Rightarrow> Inl FileNotFoundError
      | Some content \<Rightarrow>
          (let sections = parse_sections content 2
           in case section_by_number (strip section) sections of
                Some body \<Rightarrow> Inr body
              | None \<Rightarrow>
                  (case keyword_sections (lower section) sections of
                     [] \<Rightarrow> Inr (''No section found matching '' @ quote @ section @ quote @ ''.'')
                   | [m] \<Rightarrow> Inr (snd m)
                   | m # m' # ms \<Rightarrow>
                       Inr (''Multiple sections match:\<newline>'' @
                            join ''\<newline>'' (map (\<lambda>(title, body). ''- '' @ title) (m # m' # ms)) @
                            ''\<newline>\<newline>Refine your query or use a section number.''))))"

subsection \<open>\<open>get_adr\<close>\<close>

definition adr_title :: "string \<Rightarrow> string \<Rightarrow> string" where
  "adr_title name content =
     (case title_match content of Some g \<Rightarrow> g | None \<Rightarrow> stem name)"

definition adr_entry :: "string \<times> string \<Rightarrow> string" where
  "adr_entry e = ''- '' @ stem (fst e) @ '': '' @ adr_title (fst e) (snd e)"

text \<open>The keyword loop: the sorted decision records whose lowered text holds the query.\<close>

definition keyword_adrs :: "string \<Rightarrow> directory \<Rightarrow> directory" where
  "keyword_adrs query files = filter (\<lambda>e. contains (lower (snd e)) query) files"

definition get_adr :: "governance_root \<Rightarrow> string \<Rightarrow> error + string" where
  "get_adr r identifier =
     (let num = zfill (strip identifier) 4
      in case glob r (num @ ''-*.md'') of
           Inl e \<Rightarrow> Inl e
         | Inr (m # ms) \<Rightarrow> Inr (snd m)
         | Inr [] \<Rightarrow>
             (case glob r ''[0-9]*.md'' of
                Inl e \<Rightarrow> Inl e
              | Inr files \<Rightarrow>
                  (case keyword_adrs (lower identifier) (sorted_paths files) of
                     [] \<Rightarrow> Inr (''No ADR found matching '' @ quote @ identifier @ quote @ ''.'')
                   | [m] \<Rightarrow> Inr (snd m)
                   | m # m' # ms \<Rightarrow>
                       Inr (''Multiple ADRs match:\<newline>'' @
                            join ''\<newline>'' (map adr_entry (m # m' # ms))))))"

section \<open>Full-text search\<close>

text \<open>The inner loop: the index of the first line whose lowered text holds the query.\<close>

fun first_hit :: "string \<Rightarrow> nat \<Rightarrow> string list \<Rightarrow> nat option" where
  "first_hit q i [] = None"
| "first_hit q i (line # rest) =
     (if contains (lower line) q then Some i else first_hit q (Suc i) rest)"

definition excerpt_block :: "string \<Rightarrow> string list \<Rightarrow> nat \<Rightarrow> string" where
  "excerpt_block rel_path lines i =
     (let start = i - 1;
          stop = min (length lines) (i + 2);
          excerpt = join ''\<newline>'' (take (stop - start) (drop start lines))
      in ''**'' @ rel_path @ ''** (line '' @ str_nat (i + 1) @ ''):\<newline>```\<newline>'' @
         excerpt @ ''\<newline>```'')"

text \<open>
  One round of the loop over \<open>search_files\<close>: a path with its text, \<open>None\<close> when the file
  does not exist.
\<close>

definition search_file :: "string \<Rightarrow> string \<times> string option \<Rightarrow> string list \<Rightarrow> string list" where
  "search_file search_query f results =
     (case snd f of
        None \<Rightarrow> results
      | Some content \<Rightarrow>
          if \<not> contains (lower content) search_query then results
          else (case first_hit search_query 0 (splitlines content) of
                  None \<Rightarrow> results
                | Some i \<Rightarrow> results @ [excerpt_block (fst f) (splitlines content) i]))"

fun search_loop :: "string \<Rightarrow> (string \<times> string option) list \<Rightarrow> string list \<Rightarrow> string list" where
  "search_loop search_query [] results = results"
| "search_loop search_query (f # fs) results =
     search_loop search_query fs (search_file search_query f results)"

definition search_files :: "governance_root \<Rightarrow> directory \<Rightarrow> (string \<times> string option) list" where
  "search_files r files =
     [(''STANDARDS.md'', standards r),
      (''ARCHITECTURE.md'', architecture r),
      (''templates/README.md'', templates_readme r)] @
     map (\<lambda>e. (''adrs/'' @ fst e, Some (snd e))) (sorted_paths files)"

definition search_governance :: "governance_root \<Rightarrow> string \<Rightarrow> error + string" where
  "search_governance r query =
     (case glob r ''[0-9]*.md'' of
        Inl e \<Rightarrow> Inl e
      | Inr files \<Rightarrow>
          (let results = search_loop (lower query) (search_files r files) []
           in if results = [] then Inr (''No results for '' @ quote @ query @ quote @ ''.'')
              else Inr (join ''\<newline>\<newline>'' results)))"

section \<open>Compliance checker\<close>

definition COMMON_FILES :: "string list" where
  "COMMON_FILES =
    [''LICENSE'',
     ''CHANGELOG.md'',
     ''CLAUDE.md'',
     ''SECURITY.md'',
     ''.markdownlint.yaml'',
     ''.pre-commit-config.yaml'',
     ''.github/pull_request_template.md'',
     ''.github/ISSUE_TEMPLATE/config.yml'',
     ''.github/workflows/ci.yaml'']"

definition TYPE_FILES :: "(string \<times> string list) list" where
  "TYPE_FILES =
    [(''rust'',
        [''Cargo.toml'',
         ''cargo-deny.toml'',
         ''rust-toolchain.toml'',
         ''.gitignore'',
         ''.mcp.json'',
         ''.github/ISSUE_TEMPLATE/bug-report.md'']),
     (''python'',
        [''pyproject.toml'',
         ''.gitignore'',
         ''.mcp.json'',
         ''.github/ISSUE_TEMPLATE/bug-report.md'']),
     (''governance'',
        [''.github/ISSUE_TEMPLATE/adr-proposal.md'',
         ''.github/ISSUE_TEMPLATE/rfc-proposal.md''])]"

definition CI_EXPECTED_JOB :: "(string \<times> string) list" where
  "CI_EXPECTED_JOB = [(''rust'', ''check''), (''python'', ''check''), (''governance'', ''lint'')]"

definition CI_EXPECTED_STEPS :: "(string \<times> string list) list" where
  "CI_EXPECTED_STEPS =
    [(''rust'', [''cargo fmt'', ''cargo clippy'', ''cargo test'', ''cargo doc'', ''cargo deny'']),
     (''python'', [''ruff check'', ''ruff format'', ''mypy'', ''pytest'', ''pip-audit'']),
     (''governance'', [''pre-commit run''])]"

text \<open>
  A target directory maps a path relative to it to the text of the file there, \<open>None\<close>
  when nothing exists there; what exists is a readable text file.
\<close>

type_synonym tree = "string \<Rightarrow> string option"

text \<open>
  What \<open>Path(repo_path).is_dir()\<close> meets: the directory the path names; nothing, or
  something that is no directory, where the test answers no (also for a path with a null
  character); or a path that the system refuses to examine, as it does for a name longer
  than it allows or below a directory without search permission. There pathlib of Python
  3.11 and 3.12 passes the \<open>OSError\<close> of the system on (it answers no only for the error
  numbers \<open>ENOENT\<close>, \<open>ENOTDIR\<close>, \<open>EBADF\<close> and \<open>ELOOP\<close>); under a pathlib that answers no
  for every error of the system no path is \<open>Refused\<close>.
\<close>

datatype path_status =
    Directory tree
  | NotDirectory
  | Refused

type_synonym filesystem = "string \<Rightarrow> path_status"

text \<open>The state of the checker: the lists \<open>findings\<close> and \<open>passes\<close>.\<close>

type_synonym report = "string list \<times> string list"

text \<open>\<open>Path(repo_path).name\<close>: the last component, empty when there is none.\<close>

definition path_name :: "string \<Rightarrow> string" where
  "path_name p = (case path_parts p of [] \<Rightarrow> [] | c # cs \<Rightarrow> last (c # cs))"

fun check_required :: "tree \<Rightarrow> string list \<Rightarrow> report \<Rightarrow> report" where
  "check_required repo [] st = st"
| "check_required repo (fname # rest) (findings, passes) =
     (if repo fname \<noteq> None
      then check_required repo rest (findings, passes @ [''PASS: '' @ fname @ '' exists''])
      else check_required repo rest (findings @ [''FAIL: '' @ fname @ '' missing''], passes))"

definition check_naming :: "string \<Rightarrow> report \<Rightarrow> report" where
  "check_naming repo_name st =
     (case st of (findings, passes) \<Rightarrow>
        if \<not> prefix ''aces'' repo_name
        then (findings @ [''WARN: Repo name '' @ quote @ repo_name @ quote @
                          '' does not start with '' @ quote @ ''aces-'' @ quote], passes)
        else (findings, passes @ [''PASS: Repo name '' @ quote @ repo_name @ quote @
                                  '' follows naming convention'']))"

definition check_cargo_license :: "tree \<Rightarrow> report \<Rightarrow> report" where
  "check_cargo_license repo st =
     (case st of (findings, passes) \<Rightarrow>
        (case repo ''Cargo.toml'' of
           None \<Rightarrow> (findings, passes)
         | Some content \<Rightarrow>
             if contains content ''license = \"Apache-2.0\"''
             then (findings, passes @ [''PASS: Cargo.toml specifies Apache-2.0 license''])
             else (findings @ [''FAIL: Cargo.toml missing Apache-2.0 license''], passes)))"

definition check_lib_rs :: "tree \<Rightarrow> report \<Rightarrow> report" where
  "check_lib_rs repo st =
     (case st of (findings, passes) \<Rightarrow>
        (case repo ''src/lib.rs'' of
           None \<Rightarrow> (findings, passes)
         | Some content \<Rightarrow>
             if contains content ''deny(missing_docs)''
             then (findings, passes @ [''PASS: lib.rs has deny(missing_docs)''])
             else (findings @
                   [''WARN: lib.rs missing #![deny(missing_docs)] (STANDARDS.md '' @
                    section_sign @ ''16)''], passes)))"

definition check_pyproject :: "tree \<Rightarrow> report \<Rightarrow> report" where
  "check_pyproject repo st =
     (case st of (findings, passes) \<Rightarrow>
        (case repo ''pyproject.toml'' of
           None \<Rightarrow> (findings, passes)
         | Some content \<Rightarrow>
             (let st1 =
                (if contains content ''strict = true'' \<or> contains content ''strict=true''
                 then (findings, passes @ [''PASS: mypy strict mode enabled''])
                 else (findings @ [''FAIL: pyproject.toml missing mypy strict = true''], passes))
              in case st1 of (findings1, passes1) \<Rightarrow>
                   if contains content ''license = \"Apache-2.0\"''
                   then (findings1,
                         passes1 @ [''PASS: pyproject.toml specifies Apache-2.0 license''])
                   else (findings1 @ [''FAIL: pyproject.toml missing Apache-2.0 license''],
                         passes1))))"

definition check_drift :: "tree \<Rightarrow> string option \<Rightarrow> report \<Rightarrow> report" where
  "check_drift repo template_mdlint st =
     (case st of (findings, passes) \<Rightarrow>
        (case (repo ''.markdownlint.yaml'', template_mdlint) of
           (Some mdlint, Some template) \<Rightarrow>
             if mdlint = template
             then (findings, passes @ [''PASS: .markdownlint.yaml matches governance template''])
             else (findings @
                   [''WARN: .markdownlint.yaml differs from governance template '' @
                    ''(template drift)''], passes)
         | _ \<Rightarrow> (findings, passes)))"

fun check_ci_steps :: "string \<Rightarrow> string list \<Rightarrow> report \<Rightarrow> report" where
  "check_ci_steps ci_content [] st = st"
| "check_ci_steps ci_content (step # rest) (findings, passes) =
     (if contains ci_content step
      then check_ci_steps ci_content rest
             (findings, passes @ [''PASS: CI contains '' @ quote @ step @ quote @ '' step''])
      else check_ci_steps ci_content rest
             (findings @ [''FAIL: CI workflow missing expected step '' @ quote @ step @ quote],
              passes))"

definition check_ci :: "tree \<Rightarrow> string \<Rightarrow> string list \<Rightarrow> report \<Rightarrow> report" where
  "check_ci repo expected_job expected_steps st =
     (case st of (findings, passes) \<Rightarrow>
        (case repo ''.github/workflows/ci.yaml'' of
           None \<Rightarrow> (findings, passes)
         | Some ci_content \<Rightarrow>
             check_ci_steps ci_content expected_steps
               (if contains ci_content (''  '' @ expected_job @ '':'')
                then (findings,
                      passes @ [''PASS: CI job name is '' @ quote @ expected_job @ quote])
                else (findings @
                      [''FAIL: CI workflow missing expected job name '' @ quote @
                       expected_job @ quote], passes))))"

text \<open>All the checks, in the order of the source, from two empty lists.\<close>

definition run_checks ::
  "tree \<Rightarrow> string option \<Rightarrow> string \<Rightarrow> string \<Rightarrow> string list \<Rightarrow> string \<Rightarrow> string list \<Rightarrow> report" where
  "run_checks repo template_mdlint repo_name repo_type type_files expected_job expected_steps =
     (let st1 = check_required repo (COMMON_FILES @ type_files) ([], []);
          st2 = check_naming repo_name st1;
          st3 = (if repo_type = ''rust'' then check_lib_rs repo (check_cargo_license repo st2)
                 else st2);
          st4 = (if repo_type = ''python'' then check_pyproject repo st3 else st3);
          st5 = check_drift repo template_mdlint st4
      in check_ci repo expected_job expected_steps st5)"

definition build_report :: "string \<Rightarrow> string \<Rightarrow> report \<Rightarrow> string" where
  "build_report repo_name repo_type st =
     (case st of (findings, passes) \<Rightarrow>
        join ''\<newline>''
          ([''# Compliance Report'', ''Repo: '' @ repo_name @ '' ('' @ repo_type @ '')'', ''''] @
           (if findings \<noteq> []
            then [''## Issues ('' @ str_nat (length findings) @ '')''] @ findings @ ['''']
            else []) @
           [''## Passed ('' @ str_nat (length passes) @ '')''] @ passes))"

definition check_repo_compliance ::
  "filesystem \<Rightarrow> governance_root \<Rightarrow> string \<Rightarrow> string \<Rightarrow> error + string" where
  "check_repo_compliance fs r repo_path repo_type =
     (if repo_type \<notin> set [''rust'', ''python'', ''governance'']
      then Inr (''Invalid repo_type: '' @ repo_type @ ''. Must be rust, python, or governance.'')
      else (case fs repo_path of
              Refused \<Rightarrow> Inl OSError
            | NotDirectory \<Rightarrow> Inr (''Directory not found: '' @ repo_path)
            | Directory repo \<Rightarrow>
                (case (map_of TYPE_FILES repo_type, map_of CI_EXPECTED_JOB repo_type,
                       map_of CI_EXPECTED_STEPS repo_type) of
                   (Some type_files, Some expected_job, Some expected_steps) \<Rightarrow>
                     Inr (build_report (path_name repo_path) repo_type
                            (run_checks repo (templates_markdownlint r) (path_name repo_path)
                               repo_type type_files expected_job expected_steps))
                 | _ \<Rightarrow> Inl KeyError)))"

section \<open>Dependency direction\<close>







section \<open>Proposal issue filer\<close>

text \<open>What \<open>subprocess.run\<close> does with the command: the four outcomes the source handles.\<close>

datatype gh_outcome =
    Completed string
  | GhNotFound
  | CalledProcessError "string option" string
  | TimeoutExpired

text \<open>
  The next number: one more than the first four characters of the last sorted file name
  read as an integer, or one when there is no file.
\<close>

definition next_adr_number :: "governance_root \<Rightarrow> error + int" where
  "next_adr_number r =
     (case glob r ''[0-9]*.md'' of
        Inl e \<Rightarrow> Inl e
      | Inr files \<Rightarrow>
          (case sorted_paths files of
             [] \<Rightarrow> Inr 1
           | e # es \<Rightarrow>
               (case py_int (take 4 (fst (last (e # es)))) of
                  Inl err \<Rightarrow> Inl err
                | Inr last_num \<Rightarrow> Inr (last_num + 1))))"

definition issue_body :: "int \<Rightarrow> string \<Rightarrow> string \<Rightarrow> string \<Rightarrow> string" where
  "issue_body next_num title context decision =
     ''## Proposed ADR-'' @ format_04d next_num @ '': '' @ title @ ''\<newline>\<newline>'' @
     ''### Status\<newline>\<newline>Proposed\<newline>\<newline>'' @
     ''### Context\<newline>\<newline>'' @ context @ ''\<newline>\<newline>'' @
     ''### Decision (sketch)\<newline>\<newline>'' @ decision @ ''\<newline>\<newline>'' @
     ''---\<newline>'' @
     ''*This ADR proposal was created by the ACES Governance MCP agent.\<newline>'' @
     ''Discuss here, then create the formal ADR once consensus is reached.*''"

definition gh_command :: "string \<Rightarrow> string \<Rightarrow> string list" where
  "gh_command issue_title body =
     [''gh'', ''issue'', ''create'', ''--repo'', ''aces-framework/aces'', ''--title'',
      issue_title, ''--body'', body, ''--label'', ''governance'']"

text \<open>The text returned for each outcome of the external command.\<close>

definition outcome_text :: "gh_outcome \<Rightarrow> string" where
  "outcome_text outcome =
     (case outcome of
        Completed out \<Rightarrow> ''Issue created: '' @ strip out
      | GhNotFound \<Rightarrow> ''Error: gh CLI not found. Install from https://cli.github.com''
      | CalledProcessError err text \<Rightarrow>
          ''Error creating issue: '' @
          (case err of
             None \<Rightarrow> text
           | Some e \<Rightarrow> if e \<noteq> [] then strip e else text)
      | TimeoutExpired \<Rightarrow> ''Error: gh command timed out.'')"

text \<open>
  The call takes the governance root and the behaviour of the external command, and
  returns its text together with the root as it leaves it.
\<close>

definition propose_adr ::
  "governance_root \<Rightarrow> (string list \<Rightarrow> gh_outcome) \<Rightarrow> string \<Rightarrow> string \<Rightarrow> string \<Rightarrow>
   error + string \<times> governance_root" where
  "propose_adr r gh title context decision =
     (case next_adr_number r of
        Inl e \<Rightarrow> Inl e
      | Inr next_num \<Rightarrow>
          Inr (outcome_text
                 (gh (gh_command (''ADR Proposal: '' @ title)
                        (issue_body next_num title context decision))), r))"

section \<open>Statements\<close>



text \<open>
  The lines a compliance report is built from, for a directory and a valid project type,
  and what makes a line a finding or a pass.
\<close>

definition type_files_of :: "string \<Rightarrow> string list" where
  "type_files_of repo_type = (case map_of TYPE_FILES repo_type of None \<Rightarrow> [] | Some fs \<Rightarrow> fs)"

definition expected_job_of :: "string \<Rightarrow> string" where
  "expected_job_of repo_type = (case map_of CI_EXPECTED_JOB repo_type of None \<Rightarrow> [] | Some j \<Rightarrow> j)"

definition expected_steps_of :: "string \<Rightarrow> string list" where
  "expected_steps_of repo_type =
     (case map_of CI_EXPECTED_STEPS repo_type of None \<Rightarrow> [] | Some ss \<Rightarrow> ss)"

definition compliance_lines :: "tree \<Rightarrow> governance_root \<Rightarrow> string \<Rightarrow> string \<Rightarrow> report" where
  "compliance_lines repo r repo_path repo_type =
     run_checks repo (templates_markdownlint r) (path_name repo_path) repo_type
       (type_files_of repo_type) (expected_job_of repo_type) (expected_steps_of repo_type)"

definition is_finding :: "string \<Rightarrow> bool" where
  "is_finding l = (prefix ''FAIL: '' l \<or> prefix ''WARN: '' l)"

definition is_pass :: "string \<Rightarrow> bool" where
  "is_pass l = prefix ''PASS: '' l"

definition sorted_report :: "report \<Rightarrow> bool" where
  "sorted_report st = (list_all is_finding (fst st) \<and> list_all is_pass (snd st))"

text \<open>An example: a directory with a license file only, under a name without the prefix.\<close>

definition tree_of :: "(string \<times> string) list \<Rightarrow> tree" where
  "tree_of files = map_of files"

text \<open>
  The example file system holds that one directory and refuses, as Linux file systems do,
  a path with a component of more than 255 characters.
\<close>

definition example_fs :: filesystem where
  "example_fs p =
     (if p = ''/work/bad-name'' then Directory (tree_of [(''LICENSE'', ''Apache License 2.0'')])
      else if list_ex (\<lambda>c. 255 < length c) (path_parts p) then Refused
      else NotDirectory)"

definition example_root :: governance_root where
  "example_root = \<lparr> standards = None, architecture = None, templates_readme = None,
     templates_markdownlint = None, adrs = [], above_adrs = (\<lambda>cs. Some []),
     name_refused = (\<lambda>c. 255 < length c) \<rparr>"

text \<open>
  The sections of a document as the specification describes them: every heading line opens
  a section that holds the heading line and the lines up to the next heading line; the
  title is the trimmed group of the heading, the body the lines joined by newlines and
  trimmed. Lines before the first heading line belong to no section.
\<close>

fun split_sections :: "int \<Rightarrow> string list \<Rightarrow> (string \<times> string list) list" where
  "split_sections level [] = []"
| "split_sections level (line # rest) =
     (case heading_match level line of
        None \<Rightarrow> split_sections level rest
      | Some g \<Rightarrow>
          (strip g, line # takeWhile (\<lambda>l. heading_match level l = None) rest) #
          split_sections level rest)"

definition section_body :: "string list \<Rightarrow> string" where
  "section_body ls = strip (join ''\<newline>'' ls)"

definition sections_of :: "string \<Rightarrow> int \<Rightarrow> (string \<times> string) list" where
  "sections_of content level =
     map (\<lambda>s. (fst s, section_body (snd s))) (split_sections level (splitlines content))"

definition store :: "(string \<times> string) list \<Rightarrow> string \<times> string \<Rightarrow> (string \<times> string) list" where
  "store m s = (if fst s \<noteq> [] then AList.update (fst s) (snd s) m else m)"

definition example_duplicates :: string where
  "example_duplicates =
     ''# Doc\<newline>intro\<newline>## A\<newline>first\<newline>## B\<newline>other\<newline>## A\<newline>second\<newline>''"

definition example_distinct :: string where
  "example_distinct =
     ''# Doc\<newline>intro\<newline>## A\<newline>x\<newline>### sub\<newline>\<newline>## B \<newline>y\<newline>''"

text \<open>The first section whose title carries the wanted number, as a text.\<close>

definition numbered_section :: "string \<Rightarrow> (string \<times> string) list \<Rightarrow> (string \<times> string) option" where
  "numbered_section wanted sections = find (\<lambda>s. num_match (fst s) = Some wanted) sections"

definition example_standards :: governance_root where
  "example_standards =
     \<lparr> standards = Some ''# Standards\<newline>\<newline>## 1. Naming\<newline>\<newline>All repos.\<newline>\<newline>## 13. Deps\<newline>\<newline>Rule 1.\<newline>'',
       architecture = None, templates_readme = None, templates_markdownlint = None,
       adrs = [], above_adrs = (\<lambda>cs. Some []), name_refused = (\<lambda>c. 255 < length c) \<rparr>"

text \<open>
  The decision records in file-name order, and a root with two of them. Around its
  decision-record directory no pattern of the examples below matches a file.
\<close>

definition adr_files :: "directory \<Rightarrow> directory" where
  "adr_files d = sorted_paths (filter (\<lambda>e. fnmatch ''[0-9]*.md'' (fst e)) d)"

definition example_adrs :: governance_root where
  "example_adrs =
     \<lparr> standards = Some ''# Standards\<newline>\<newline>## 15. Formal Methods\<newline>\<newline>Governed by ADR-0019.\<newline>'',
       architecture = Some ''# Architecture\<newline>\<newline>## Dependency Graph\<newline>\<newline>No cycles.\<newline>'',
       templates_readme = None,
       templates_markdownlint = None,
       adrs =
         [(''0019-formal-methods.md'',
           ''# ADR-0019: Formal Methods\<newline>\<newline>## Status\<newline>\<newline>Accepted\<newline>''),
          (''TEMPLATE.md'', ''# ADR-XXXX: Title\<newline>\<newline>## Status\<newline>''),
          (''0001-rust-core.md'',
           ''# ADR-0001: Rust Core\<newline>\<newline>## Status\<newline>\<newline>Accepted\<newline>'')],
       above_adrs = (\<lambda>cs. Some []),
       name_refused = (\<lambda>c. 255 < length c) \<rparr>"

text \<open>
  The index of the first line that holds the query, the lines shown around it, the excerpt
  of one document, and the list of documents searched.
\<close>

definition hit_index :: "string \<Rightarrow> string list \<Rightarrow> nat option" where
  "hit_index q lines =
     (let i = length (takeWhile (\<lambda>l. \<not> contains (lower l) q) lines)
      in if i < length lines then Some i else None)"

definition context_lines :: "string list \<Rightarrow> nat \<Rightarrow> string list" where
  "context_lines lines i =
     (if i = 0 then [] else [lines ! (i - 1)]) @ [lines ! i] @
     (if i + 1 < length lines then [lines ! (i + 1)] else [])"

definition doc_excerpt :: "string \<Rightarrow> string \<times> string option \<Rightarrow> string list" where
  "doc_excerpt q f =
     (case snd f of
        None \<Rightarrow> []
      | Some content \<Rightarrow>
          (case hit_index q (splitlines content) of
             None \<Rightarrow> []
           | Some i \<Rightarrow>
               [''**'' @ fst f @ ''** (line '' @ str_nat (i + 1) @ ''):\<newline>```\<newline>'' @
                join ''\<newline>'' (context_lines (splitlines content) i) @ ''\<newline>```'']))"

definition search_list :: "governance_root \<Rightarrow> (string \<times> string option) list" where
  "search_list r =
     [(''STANDARDS.md'', standards r),
      (''ARCHITECTURE.md'', architecture r),
      (''templates/README.md'', templates_readme r)] @
     map (\<lambda>e. (''adrs/'' @ fst e, Some (snd e))) (adr_files (adrs r))"

text \<open>
  The naming scheme of a decision record, the number its name carries, and the next number
  as the specification describes it.
\<close>

definition follows_scheme :: "string \<Rightarrow> bool" where
  "follows_scheme name =
     (list_all isdigit (take 4 name) \<and> prefix ''-'' (drop 4 name) \<and> suffix ''.md'' name)"

definition adr_number :: "string \<Rightarrow> nat" where
  "adr_number name = digits_value (take 4 name)"

definition next_number :: "directory \<Rightarrow> int" where
  "next_number d =
     (if adr_files d = [] then 1
      else int (Max (set (map (\<lambda>e. adr_number (fst e)) (adr_files d)))) + 1)"

definition example_gh :: "string list \<Rightarrow> gh_outcome" where
  "example_gh cmd = Completed ''https://github.com/aces-framework/aces/issues/42\<newline>''"

section \<open>Section parser: proofs\<close>

lemma flush_store: "flush t ls m = store m (t, section_body ls)"
  by (simp add: flush_def store_def section_body_def)

lemma parse_loop_split:
  "parse_loop level ls title lines secs =
     foldl store
       (store secs (title, section_body (lines @ takeWhile (\<lambda>l. heading_match level l = None) ls)))
       (map (\<lambda>s. (fst s, section_body (snd s))) (split_sections level ls))"
proof (induction ls arbitrary: title lines secs)
  case Nil
  show ?case by (simp add: flush_store)
next
  case (Cons l ls)
  show ?case
    by (cases "heading_match level l") (simp_all add: Cons.IH flush_store)
qed

lemma parse_sections_fold:
  "parse_sections content level = foldl store [] (sections_of content level)"
  by (simp add: parse_sections_def sections_of_def parse_loop_split store_def)

lemma update_fresh: "k \<notin> fst ` set al \<Longrightarrow> AList.update k v al = al @ [(k, v)]"
  by (induction al) auto

lemma foldl_store_distinct:
  "distinct (map fst xs) \<Longrightarrow> fst ` set acc \<inter> fst ` set xs = {} \<Longrightarrow>
     foldl store acc xs = acc @ filter (\<lambda>s. fst s \<noteq> []) xs"
proof (induction xs arbitrary: acc)
  case Nil
  show ?case by simp
next
  case (Cons x xs)
  have fresh: "fst x \<notin> fst ` set acc" using Cons.prems(2) by auto
  have d: "distinct (map fst xs)" and nx: "fst x \<notin> fst ` set xs"
    using Cons.prems(1) by auto
  show ?case
  proof (cases "fst x = []")
    case True
    have "fst ` set acc \<inter> fst ` set xs = {}" using Cons.prems(2) by auto
    with Cons.IH [OF d, of acc] True show ?thesis by (simp add: store_def)
  next
    case False
    have s: "store acc x = acc @ [x]"
      using False fresh by (simp add: store_def update_fresh)
    have "fst ` set (acc @ [x]) \<inter> fst ` set xs = {}"
      using Cons.prems(2) nx by auto
    from Cons.IH [OF d this] s False show ?thesis by simp
  qed
qed

lemma foldl_store_keys_distinct:
  "distinct (map fst acc) \<Longrightarrow> distinct (map fst (foldl store acc xs))"
  by (induction xs arbitrary: acc) (simp_all add: store_def distinct_update)

lemma foldl_store_map_of:
  "map_of (foldl store acc xs) k =
     (if k \<noteq> [] \<and> k \<in> fst ` set xs
      then Some (snd (last (filter (\<lambda>s. fst s = k) xs)))
      else map_of acc k)"
proof (induction xs rule: rev_induct)
  case Nil
  show ?case by simp
next
  case (snoc x xs)
  show ?case
    using snoc.IH by (cases x) (auto simp: store_def update_conv')
qed

lemma filter_key_absent: "k \<notin> fst ` set al \<Longrightarrow> filter (\<lambda>e. fst e = k) al = []"
  by (induction al) auto

lemma distinct_filter_key:
  "distinct (map fst al) \<Longrightarrow> map_of al k = Some v \<Longrightarrow> filter (\<lambda>e. fst e = k) al = [(k, v)]"
proof (induction al)
  case Nil
  then show ?case by simp
next
  case (Cons a al)
  show ?case
  proof (cases "fst a = k")
    case True
    with Cons.prems have "a = (k, v)" by (cases a) auto
    moreover have "filter (\<lambda>e. fst e = k) al = []"
      using Cons.prems(1) True by (simp add: filter_key_absent)
    ultimately show ?thesis by simp
  next
    case False
    with Cons show ?thesis by (cases a) auto
  qed
qed

lemma parse_sections_keys_distinct: "distinct (map fst (parse_sections content level))"
  by (simp add: parse_sections_fold foldl_store_keys_distinct)

lemma parse_sections_map_of:
  "map_of (parse_sections content level) k =
     (if k \<noteq> [] \<and> k \<in> fst ` set (sections_of content level)
      then Some (snd (last (filter (\<lambda>s. fst s = k) (sections_of content level))))
      else None)"
  by (simp add: parse_sections_fold foldl_store_map_of)

text \<open>
  C1, as amended. For a title that is not blank and that two or more level-2 headings of a
  document share, parsing at depth 2 gives exactly one entry under that title, and its body
  is the body of the last of these headings in source order, heading line included. Every
  entry of the result holds the body of the last section of its title, so no entry comes
  from an earlier occurrence. A heading whose title is blank opens no entry at all.
\<close>

theorem parse_sections_last_wins:
  "t \<noteq> [] \<and> 2 \<le> length (filter (\<lambda>s. fst s = t) (sections_of content 2)) \<longrightarrow>
     filter (\<lambda>e. fst e = t) (parse_sections content 2) =
       [(t, snd (last (filter (\<lambda>s. fst s = t) (sections_of content 2))))] \<and>
     list_all (\<lambda>e. snd e = snd (last (filter (\<lambda>s. fst s = fst e) (sections_of content 2))))
       (parse_sections content 2)"
proof (intro impI, elim conjE)
  assume t: "t \<noteq> []"
    and n: "2 \<le> length (filter (\<lambda>s. fst s = t) (sections_of content 2))"
  from n have "filter (\<lambda>s. fst s = t) (sections_of content 2) \<noteq> []" by auto
  then have m: "t \<in> fst ` set (sections_of content 2)"
    by (auto simp: filter_empty_conv)
  have "map_of (parse_sections content 2) t =
          Some (snd (last (filter (\<lambda>s. fst s = t) (sections_of content 2))))"
    using t m by (simp add: parse_sections_map_of)
  then have a: "filter (\<lambda>e. fst e = t) (parse_sections content 2) =
       [(t, snd (last (filter (\<lambda>s. fst s = t) (sections_of content 2))))]"
    by (rule distinct_filter_key [OF parse_sections_keys_distinct])
  have b: "list_all (\<lambda>e. snd e = snd (last (filter (\<lambda>s. fst s = fst e) (sections_of content 2))))
       (parse_sections content 2)"
    unfolding list_all_iff
  proof
    fix e assume e: "e \<in> set (parse_sections content 2)"
    then have "map_of (parse_sections content 2) (fst e) = Some (snd e)"
      by (simp add: map_of_eq_Some_iff [OF parse_sections_keys_distinct])
    then show "snd e = snd (last (filter (\<lambda>s. fst s = fst e) (sections_of content 2)))"
      by (simp add: parse_sections_map_of split: if_splits)
  qed
  from a b show "filter (\<lambda>e. fst e = t) (parse_sections content 2) =
       [(t, snd (last (filter (\<lambda>s. fst s = t) (sections_of content 2))))] \<and>
     list_all (\<lambda>e. snd e = snd (last (filter (\<lambda>s. fst s = fst e) (sections_of content 2))))
       (parse_sections content 2)" ..
qed

text \<open>
  A document whose title \<open>A\<close> stands over two sections: the entry holds the second.
\<close>

theorem parse_sections_last_wins_witness:
  "''A'' \<noteq> [] \<and>
   2 \<le> length (filter (\<lambda>s. fst s = ''A'') (sections_of example_duplicates 2)) \<and>
   sections_of example_duplicates 2 =
     [(''A'', ''## A\<newline>first''), (''B'', ''## B\<newline>other''), (''A'', ''## A\<newline>second'')] \<and>
   filter (\<lambda>e. fst e = ''A'') (parse_sections example_duplicates 2) =
     [(''A'', ''## A\<newline>second'')]"
proof -
  have s: "sections_of example_duplicates 2 =
     [(''A'', ''## A\<newline>first''), (''B'', ''## B\<newline>other''), (''A'', ''## A\<newline>second'')]"
    by code_simp
  show ?thesis
    using parse_sections_last_wins [of "''A''" example_duplicates] by (simp add: s)
qed

text \<open>
  C1 as it was stated fails for a blank title: the two heading lines below match the
  heading pattern and share the title that trimming leaves empty, and the result has no
  entry at all.
\<close>

theorem parse_sections_blank_title_counterexample:
  "map fst (sections_of ''##  \<newline>x\<newline>##  \<newline>y'' 2) = [[], []] \<and>
   parse_sections ''##  \<newline>x\<newline>##  \<newline>y'' 2 = []"
  by code_simp

lemma split_sections_preamble:
  "list_all (\<lambda>l. heading_match level l = None) pre \<Longrightarrow>
     split_sections level (pre @ rest) = split_sections level rest"
  by (induction pre) simp_all

lemma heading_match_deeper: "heading_match 2 (''###'' @ s) = None"
  by (simp add: heading_match_def eval_nat_numeral)

lemma join_Cons: "join sep (l # ls) = l @ (if ls = [] then [] else sep @ join sep ls)"
  by (cases ls) simp_all

lemma rstrip_prefix:
  "prefix (rev (dropWhile P (rev l))) (rev (dropWhile P (rev (l @ y))))"
proof (cases "\<forall>x\<in>set (rev y). P x")
  case True
  then show ?thesis by (simp add: dropWhile_append)
next
  case False
  have "l = rev (dropWhile P (rev l)) @ rev (takeWhile P (rev l))"
    by (metis rev_append rev_rev_ident takeWhile_dropWhile_id)
  then have "prefix (rev (dropWhile P (rev l))) l"
    by (metis prefixI)
  moreover have "rev (dropWhile P (rev (l @ y))) = l @ rev (dropWhile P (rev y))"
    using False by (auto simp: dropWhile_append)
  ultimately show ?thesis by (simp add: prefix_prefix)
qed

lemma heading_line_not_blank:
  "heading_match 2 l = Some g \<Longrightarrow> dropWhile isspace (l @ y) = l @ y"
  by (auto simp: heading_match_def eval_nat_numeral prefix_def isspace_def split: if_splits)

lemma heading_starts_body:
  "heading_match 2 l = Some g \<Longrightarrow> prefix (strip l) (section_body (l # ls))"
proof -
  assume h: "heading_match 2 l = Some g"
  have a: "strip l = rev (dropWhile isspace (rev l))"
    using heading_line_not_blank [OF h, of "[]"] by (simp add: strip_def)
  have b: "section_body (l # ls) =
             rev (dropWhile isspace
               (rev (l @ (if ls = [] then [] else ''\<newline>'' @ join ''\<newline>'' ls))))"
    unfolding section_body_def strip_def join_Cons
    by (simp only: heading_line_not_blank [OF h])
  show ?thesis unfolding a b by (rule rstrip_prefix)
qed

lemma split_sections_heading_first:
  "list_all (\<lambda>s. prefix (strip (hd (snd s))) (section_body (snd s))) (split_sections 2 lines)"
proof (induction lines)
  case Nil
  show ?case by simp
next
  case (Cons l lines)
  show ?case
    using Cons.IH by (cases "heading_match 2 l") (simp_all add: heading_starts_body)
qed

text \<open>
  C8, as amended. When the level-2 headings of a document have pairwise distinct titles,
  parsing at depth 2 gives one entry for each heading whose title is not blank, in source
  order; the body is the heading line and the lines up to the next heading line, joined by
  newlines and trimmed of surrounding whitespace, and it starts with the heading line
  without its trailing whitespace. Lines before the first heading are in no entry, and a
  line that starts with three hashes is no level-2 heading. A heading with a blank title
  closes the section before it and opens none.
\<close>

theorem parse_sections_distinct_titles:
  "(distinct (map fst (sections_of content 2)) \<longrightarrow>
      parse_sections content 2 = filter (\<lambda>s. fst s \<noteq> []) (sections_of content 2)) \<and>
   list_all (\<lambda>s. prefix (strip (hd (snd s))) (section_body (snd s)))
     (split_sections 2 (splitlines content)) \<and>
   (list_all (\<lambda>l. heading_match 2 l = None) pre \<longrightarrow>
      split_sections 2 (pre @ rest) = split_sections 2 rest) \<and>
   heading_match 2 (''###'' @ s) = None"
proof (intro conjI impI)
  assume "distinct (map fst (sections_of content 2))"
  then show "parse_sections content 2 = filter (\<lambda>s. fst s \<noteq> []) (sections_of content 2)"
    using foldl_store_distinct [of "sections_of content 2" "[]"]
    by (simp add: parse_sections_fold)
next
  show "list_all (\<lambda>s. prefix (strip (hd (snd s))) (section_body (snd s)))
          (split_sections 2 (splitlines content))"
    by (rule split_sections_heading_first)
next
  assume "list_all (\<lambda>l. heading_match 2 l = None) pre"
  then show "split_sections 2 (pre @ rest) = split_sections 2 rest"
    by (rule split_sections_preamble)
next
  show "heading_match 2 (''###'' @ s) = None"
    by (rule heading_match_deeper)
qed

text \<open>
  A document with a preamble, two sections of different titles and a level-3 heading in
  the first of them.
\<close>

theorem parse_sections_distinct_titles_witness:
  "distinct (map fst (sections_of example_distinct 2)) \<and>
   parse_sections example_distinct 2 =
     [(''A'', ''## A\<newline>x\<newline>### sub''), (''B'', ''## B \<newline>y'')] \<and>
   list_all (\<lambda>l. heading_match 2 l = None) [''# Doc'', ''intro''] \<and>
   split_sections 2 ([''# Doc'', ''intro''] @ [''## A'', ''x'']) = [(''A'', [''## A'', ''x''])]"
proof -
  have s: "sections_of example_distinct 2 =
     [(''A'', ''## A\<newline>x\<newline>### sub''), (''B'', ''## B \<newline>y'')]"
    by code_simp
  have p: "list_all (\<lambda>l. heading_match 2 l = None) [''# Doc'', ''intro'']"
    by code_simp
  have r: "split_sections 2 [''## A'', ''x''] = [(''A'', [''## A'', ''x''])]"
    by code_simp
  show ?thesis
    using parse_sections_distinct_titles
      [of example_distinct "[''# Doc'', ''intro'']" "[''## A'', ''x'']" "[]"] p r
    by (simp add: s)
qed

text \<open>
  C8 as it was stated fails for a blank title: the document has one level-2 heading, and
  the result has no entry.
\<close>

theorem parse_sections_one_entry_counterexample:
  "distinct (map fst (sections_of ''##  \<newline>body'' 2)) \<and>
   length (sections_of ''##  \<newline>body'' 2) = 1 \<and>
   parse_sections ''##  \<newline>body'' 2 = []"
  by code_simp

section \<open>Lookups: proofs\<close>

lemma section_by_number_find:
  "section_by_number wanted sections = map_option snd (numbered_section wanted sections)"
  by (induction sections) (auto simp: numbered_section_def split: option.splits)

lemma not_digit_dot: "\<not> isdigit (CHR ''.'')"
  by code_simp

lemma num_match_digits:
  "ds \<noteq> [] \<Longrightarrow> list_all isdigit ds \<Longrightarrow> num_match (ds @ ''.'' @ rest) = Some ds"
proof -
  assume n: "ds \<noteq> []" and d: "list_all isdigit ds"
  have "takeWhile isdigit (ds @ ''.'' @ rest) = ds"
    using d not_digit_dot by (simp add: takeWhile_append2 list_all_iff)
  then show ?thesis using n by (simp add: num_match_def)
qed

text \<open>
  C7, as amended. When the trimmed input is, character for character, the run of digits
  before the dot at the start of a level-2 section title of the standards document,
  \<open>get_standard\<close> returns the body of the first such section in the order of the mapping,
  whatever a keyword search would find. A title that starts with digits and a dot has these
  digits as its number. The comparison is one of texts: an input that writes the same
  integer with other characters, such as leading zeros, is not matched by number.
\<close>

theorem get_standard_by_number:
  "(standards r = Some content \<and>
    numbered_section (strip section) (parse_sections content 2) = Some s \<longrightarrow>
      get_standard r section = Inr (snd s)) \<and>
   (ds \<noteq> [] \<and> list_all isdigit ds \<longrightarrow> num_match (ds @ ''.'' @ rest) = Some ds)"
proof (intro conjI impI)
  assume "standards r = Some content \<and>
    numbered_section (strip section) (parse_sections content 2) = Some s"
  then show "get_standard r section = Inr (snd s)"
    by (simp add: get_standard_def section_by_number_find)
next
  assume "ds \<noteq> [] \<and> list_all isdigit ds"
  then show "num_match (ds @ ''.'' @ rest) = Some ds"
    by (elim conjE) (rule num_match_digits)
qed

text \<open>
  The input \<open>13\<close> between two spaces finds the section \<open>13. Deps\<close>.
\<close>

theorem get_standard_by_number_witness:
  "standards example_standards =
     Some ''# Standards\<newline>\<newline>## 1. Naming\<newline>\<newline>All repos.\<newline>\<newline>## 13. Deps\<newline>\<newline>Rule 1.\<newline>'' \<and>
   numbered_section (strip '' 13 '')
     (parse_sections ''# Standards\<newline>\<newline>## 1. Naming\<newline>\<newline>All repos.\<newline>\<newline>## 13. Deps\<newline>\<newline>Rule 1.\<newline>'' 2) =
     Some (''13. Deps'', ''## 13. Deps\<newline>\<newline>Rule 1.'') \<and>
   get_standard example_standards '' 13 '' = Inr ''## 13. Deps\<newline>\<newline>Rule 1.'' \<and>
   ''13'' \<noteq> [] \<and> list_all isdigit ''13'' \<and> num_match (''13'' @ ''.'' @ '' Deps'') = Some ''13''"
proof -
  have a: "standards example_standards =
     Some ''# Standards\<newline>\<newline>## 1. Naming\<newline>\<newline>All repos.\<newline>\<newline>## 13. Deps\<newline>\<newline>Rule 1.\<newline>''"
    by (simp add: example_standards_def)
  have b: "numbered_section (strip '' 13 '')
     (parse_sections ''# Standards\<newline>\<newline>## 1. Naming\<newline>\<newline>All repos.\<newline>\<newline>## 13. Deps\<newline>\<newline>Rule 1.\<newline>'' 2) =
     Some (''13. Deps'', ''## 13. Deps\<newline>\<newline>Rule 1.'')"
    by code_simp
  have c: "list_all isdigit ''13''"
    by code_simp
  show ?thesis
    using get_standard_by_number
      [of example_standards _ "'' 13 ''" "(''13. Deps'', ''## 13. Deps\<newline>\<newline>Rule 1.'')"
          "''13''" "'' Deps''"] a b c
    by simp
qed

text \<open>
  C7 as it was stated fails for a zero-padded input: \<open>01\<close> and \<open>1\<close> denote the same
  integer, the document has the section \<open>1. Naming\<close>, and \<open>get_standard\<close> finds nothing
  for \<open>01\<close>.
\<close>

theorem get_standard_zero_padded_counterexample:
  "py_int ''01'' = Inr 1 \<and>
   py_int ''1'' = Inr 1 \<and>
   parse_sections ''## 1. Naming\<newline>\<newline>All repos.'' 2 =
     [(''1. Naming'', ''## 1. Naming\<newline>\<newline>All repos.'')] \<and>
   num_match ''1. Naming'' = Some ''1'' \<and>
   get_standard \<lparr> standards = Some ''## 1. Naming\<newline>\<newline>All repos.'', architecture = None,
       templates_readme = None, templates_markdownlint = None, adrs = [],
       above_adrs = (\<lambda>cs. Some []), name_refused = (\<lambda>c. False) \<rparr> ''01'' =
     Inr (''No section found matching '' @ quote @ ''01'' @ quote @ ''.'')"
  by code_simp

lemma glob_adr_pattern:
  "glob r ''[0-9]*.md'' = Inr (filter (\<lambda>e. fnmatch ''[0-9]*.md'' (fst e)) (adrs r))"
proof -
  have p: "path_parts ''[0-9]*.md'' = [''[0-9]*.md'']"
    by code_simp
  have c: "\<not> contains ''[0-9]*.md'' ''**''"
    by code_simp
  have w: "is_wildcard_pattern ''[0-9]*.md''"
    by code_simp
  have n: "\<not> prefix ''/'' ''[0-9]*.md''"
    by code_simp
  show ?thesis
    unfolding glob_def p Let_def using c w n by simp
qed

text \<open>
  The pattern of the numeric stage ends with \<open>-*.md\<close>, so its last component is neither
  empty nor \<open>**\<close>: whatever the identifier is, \<open>get_adr\<close> stays within what the model of
  \<open>glob\<close> covers.
\<close>

lemma split_on_nonempty: "split_on c s \<noteq> []"
  by (induction s) (auto split: list.splits)

lemma split_on_absent: "c \<notin> set s \<Longrightarrow> split_on c s = [s]"
  by (induction s) auto

lemma split_on_append:
  "c \<notin> set t \<Longrightarrow>
     split_on c (s @ t) = butlast (split_on c s) @ [last (split_on c s) @ t]"
proof (induction s)
  case Nil
  then show ?case by (simp add: split_on_absent)
next
  case (Cons x xs)
  obtain g tg where b: "split_on c xs = g # tg"
    using split_on_nonempty [of c xs] by (cases "split_on c xs") auto
  show ?case
  proof (cases "x = c")
    case True
    then show ?thesis
      using Cons b by simp
  next
    case False
    then show ?thesis
      using Cons b by (cases tg) auto
  qed
qed

lemma split_on_last_append:
  "c \<notin> set t \<Longrightarrow> last (split_on c (s @ t)) = last (split_on c s) @ t"
  by (simp add: split_on_append)

lemma glob_walk_errors:
  "glob_walk r comps = Inl e \<Longrightarrow> e = OSError \<or> e = Unmodelled"
  by (induction comps) (auto split: if_splits option.splits)

lemma glob_walk_unmodelled:
  "glob_walk r comps = Inl Unmodelled \<Longrightarrow> list_all (\<lambda>c. c = ''**'') comps"
  by (induction comps) (auto split: if_splits option.splits)

lemma adr_pattern_parts:
  "last (split_on (CHR ''/'') num) @ ''-*.md'' \<in> set (path_parts (num @ ''-*.md''))"
proof -
  have "CHR ''/'' \<notin> set ''-*.md''"
    by simp
  from split_on_last_append [OF this, of num]
  have l: "last (split_on (CHR ''/'') (num @ ''-*.md'')) =
             last (split_on (CHR ''/'') num) @ ''-*.md''" .
  have "last (split_on (CHR ''/'') (num @ ''-*.md'')) \<in> set (split_on (CHR ''/'') (num @ ''-*.md''))"
    by (rule last_in_set) (rule split_on_nonempty)
  then show ?thesis
    unfolding l by (simp add: path_parts_def)
qed

lemma glob_numeric_pattern_modelled:
  "glob r (num @ ''-*.md'') \<noteq> Inl Unmodelled \<and> glob r (num @ ''-*.md'') \<noteq> Inl IndexError"
proof -
  define c where "c = last (split_on (CHR ''/'') num) @ ''-*.md''"
  have m: "c \<in> set (path_parts (num @ ''-*.md''))"
    unfolding c_def by (rule adr_pattern_parts)
  have n: "c \<noteq> ''**''"
    by (simp add: c_def)
  have u: "glob_walk r (path_parts (num @ ''-*.md'')) \<noteq> Inl Unmodelled"
    using glob_walk_unmodelled [of r "path_parts (num @ ''-*.md'')"] m n
    by (auto simp: list_all_iff)
  have i: "glob_walk r (path_parts (num @ ''-*.md'')) \<noteq> Inl IndexError"
    using glob_walk_errors [of r "path_parts (num @ ''-*.md'')" IndexError] by auto
  show ?thesis
    using m u i by (auto simp: glob_def Let_def)
qed

lemma get_adr_modelled:
  "get_adr r identifier \<noteq> Inl Unmodelled \<and> get_adr r identifier \<noteq> Inl IndexError"
proof (cases "glob r (zfill (strip identifier) 4 @ ''-*.md'')")
  case (Inl e)
  then have "get_adr r identifier = Inl e"
    by (simp add: get_adr_def)
  then show ?thesis
    using Inl glob_numeric_pattern_modelled [of r "zfill (strip identifier) 4"] by auto
next
  case (Inr ms)
  then show ?thesis
    by (cases ms)
       (auto simp: get_adr_def glob_adr_pattern split: list.splits)
qed

text \<open>
  The keyword stage of \<open>get_adr\<close>. When the numeric stage finds no file, the decision
  records are looked at in file-name order and those whose lowered text holds the lowered
  identifier are kept. With none kept the result is the not-found message that quotes the
  identifier; with exactly one kept it is that file's whole text; with two or more kept it
  is the listing, one line for each kept file made of its stem and its title, and no file
  text.
\<close>

lemma get_adr_keyword_stage:
  "(glob r (zfill (strip identifier) 4 @ ''-*.md'') = Inr [] \<and>
    keyword_adrs (lower identifier) (adr_files (adrs r)) = [] \<longrightarrow>
      get_adr r identifier =
        Inr (''No ADR found matching '' @ quote @ identifier @ quote @ ''.'')) \<and>
   (glob r (zfill (strip identifier) 4 @ ''-*.md'') = Inr [] \<and>
    keyword_adrs (lower identifier) (adr_files (adrs r)) = [m] \<longrightarrow>
      get_adr r identifier = Inr (snd m)) \<and>
   (glob r (zfill (strip identifier) 4 @ ''-*.md'') = Inr [] \<and>
    2 \<le> length (keyword_adrs (lower identifier) (adr_files (adrs r))) \<longrightarrow>
      get_adr r identifier =
        Inr (''Multiple ADRs match:\<newline>'' @
             join ''\<newline>''
               (map (\<lambda>e. ''- '' @ stem (fst e) @ '': '' @ adr_title (fst e) (snd e))
                  (keyword_adrs (lower identifier) (adr_files (adrs r))))))"
proof (intro conjI impI)
  assume "glob r (zfill (strip identifier) 4 @ ''-*.md'') = Inr [] \<and>
    keyword_adrs (lower identifier) (adr_files (adrs r)) = []"
  then show "get_adr r identifier =
        Inr (''No ADR found matching '' @ quote @ identifier @ quote @ ''.'')"
    by (simp add: get_adr_def glob_adr_pattern adr_files_def)
next
  assume "glob r (zfill (strip identifier) 4 @ ''-*.md'') = Inr [] \<and>
    keyword_adrs (lower identifier) (adr_files (adrs r)) = [m]"
  then show "get_adr r identifier = Inr (snd m)"
    by (simp add: get_adr_def glob_adr_pattern adr_files_def)
next
  assume h: "glob r (zfill (strip identifier) 4 @ ''-*.md'') = Inr [] \<and>
    2 \<le> length (keyword_adrs (lower identifier) (adr_files (adrs r)))"
  define ks where
    "ks = keyword_adrs (lower identifier)
            (sorted_paths (filter (\<lambda>e. fnmatch ''[0-9]*.md'' (fst e)) (adrs r)))"
  from h have "2 \<le> length ks"
    by (simp add: ks_def adr_files_def)
  then obtain a b ms where "ks = a # b # ms"
    by (cases ks; cases "tl ks") auto
  then have k: "keyword_adrs (lower identifier)
            (sorted_paths (filter (\<lambda>e. fnmatch ''[0-9]*.md'' (fst e)) (adrs r))) = a # b # ms"
    by (simp add: ks_def)
  have e: "adr_entry = (\<lambda>e. ''- '' @ stem (fst e) @ '': '' @ adr_title (fst e) (snd e))"
    by (rule ext) (simp add: adr_entry_def)
  from h show "get_adr r identifier =
        Inr (''Multiple ADRs match:\<newline>'' @
             join ''\<newline>''
               (map (\<lambda>e. ''- '' @ stem (fst e) @ '': '' @ adr_title (fst e) (snd e))
                  (keyword_adrs (lower identifier) (adr_files (adrs r)))))"
    unfolding e [symmetric]
    by (simp add: get_adr_def glob_adr_pattern adr_files_def k)
qed

text \<open>
  A keyword in no record, a keyword in one record and a keyword in both records, each
  written in another case than the records have it; and an identifier whose pattern climbs
  to the parent directory, where it matches nothing.
\<close>

lemma get_adr_keyword_stage_examples:
  "get_adr example_adrs ''XYZZY'' =
     Inr (''No ADR found matching '' @ quote @ ''XYZZY'' @ quote @ ''.'') \<and>
   keyword_adrs (lower ''formal METHODS'') (adr_files (adrs example_adrs)) =
     [(''0019-formal-methods.md'',
       ''# ADR-0019: Formal Methods\<newline>\<newline>## Status\<newline>\<newline>Accepted\<newline>'')] \<and>
   get_adr example_adrs ''formal METHODS'' =
     Inr ''# ADR-0019: Formal Methods\<newline>\<newline>## Status\<newline>\<newline>Accepted\<newline>'' \<and>
   get_adr example_adrs ''ACCEPTED'' =
     Inr (''Multiple ADRs match:\<newline>'' @
          ''- 0001-rust-core: ADR-0001: Rust Core\<newline>'' @
          ''- 0019-formal-methods: ADR-0019: Formal Methods'') \<and>
   get_adr example_adrs ''../x'' =
     Inr (''No ADR found matching '' @ quote @ ''../x'' @ quote @ ''.'')"
proof -
  have g0: "glob example_adrs (zfill (strip ''XYZZY'') 4 @ ''-*.md'') = Inr []"
    by code_simp
  have k0: "keyword_adrs (lower ''XYZZY'') (adr_files (adrs example_adrs)) = []"
    by code_simp
  have g1: "glob example_adrs (zfill (strip ''formal METHODS'') 4 @ ''-*.md'') = Inr []"
    by code_simp
  have k1: "keyword_adrs (lower ''formal METHODS'') (adr_files (adrs example_adrs)) =
     [(''0019-formal-methods.md'',
       ''# ADR-0019: Formal Methods\<newline>\<newline>## Status\<newline>\<newline>Accepted\<newline>'')]"
    by code_simp
  have g2: "glob example_adrs (zfill (strip ''ACCEPTED'') 4 @ ''-*.md'') = Inr []"
    by code_simp
  have k2: "2 \<le> length (keyword_adrs (lower ''ACCEPTED'') (adr_files (adrs example_adrs)))"
    by code_simp
  have l2: "''Multiple ADRs match:\<newline>'' @
             join ''\<newline>''
               (map (\<lambda>e. ''- '' @ stem (fst e) @ '': '' @ adr_title (fst e) (snd e))
                  (keyword_adrs (lower ''ACCEPTED'') (adr_files (adrs example_adrs)))) =
            ''Multiple ADRs match:\<newline>'' @
            ''- 0001-rust-core: ADR-0001: Rust Core\<newline>'' @
            ''- 0019-formal-methods: ADR-0019: Formal Methods''"
    by code_simp
  note t0 = get_adr_keyword_stage [of example_adrs "''XYZZY''", THEN conjunct1, rule_format]
  note t1 = get_adr_keyword_stage [of example_adrs "''formal METHODS''"
      "(''0019-formal-methods.md'',
        ''# ADR-0019: Formal Methods\<newline>\<newline>## Status\<newline>\<newline>Accepted\<newline>'')",
      THEN conjunct2, THEN conjunct1, rule_format]
  note t2 = get_adr_keyword_stage [of example_adrs "''ACCEPTED''",
      THEN conjunct2, THEN conjunct2, rule_format]
  have r0: "get_adr example_adrs ''XYZZY'' =
     Inr (''No ADR found matching '' @ quote @ ''XYZZY'' @ quote @ ''.'')"
    by (rule t0) (intro conjI g0 k0)
  have r1: "get_adr example_adrs ''formal METHODS'' =
     Inr ''# ADR-0019: Formal Methods\<newline>\<newline>## Status\<newline>\<newline>Accepted\<newline>''"
    using t1 [OF conjI [OF g1 k1]] by simp
  have r2: "get_adr example_adrs ''ACCEPTED'' =
     Inr (''Multiple ADRs match:\<newline>'' @
          ''- 0001-rust-core: ADR-0001: Rust Core\<newline>'' @
          ''- 0019-formal-methods: ADR-0019: Formal Methods'')"
    using t2 [OF conjI [OF g2 k2]] unfolding l2 .
  have g3: "glob example_adrs (zfill (strip ''../x'') 4 @ ''-*.md'') = Inr []"
    by code_simp
  have k3: "keyword_adrs (lower ''../x'') (adr_files (adrs example_adrs)) = []"
    by code_simp
  note t3 = get_adr_keyword_stage [of example_adrs "''../x''", THEN conjunct1, rule_format]
  have r3: "get_adr example_adrs ''../x'' =
     Inr (''No ADR found matching '' @ quote @ ''../x'' @ quote @ ''.'')"
    by (rule t3) (intro conjI g3 k3)
  show ?thesis
    by (intro conjI r0 k1 r1 r2 r3)
qed

text \<open>
  C3. The keyword stage is not reached by every identifier whose numeric form matches no
  file name. No decision record of the example has a name that starts with the numeric
  form of \<open>/etc/passwd\<close> and a hyphen, and none holds this identifier in any case: the
  claim promises the not-found message. The pattern of the numeric stage, built from the
  identifier as it is, starts at the file-system root, and \<open>get_adr\<close> ends with
  \<open>NotImplementedError\<close>, which is none of the three outcomes.
\<close>

theorem get_adr_no_keyword_outcome:
  "zfill (strip ''/etc/passwd'') 4 = ''/etc/passwd'' \<and>
   filter (\<lambda>e. prefix (zfill (strip ''/etc/passwd'') 4) (fst e)) (adrs example_adrs) = [] \<and>
   keyword_adrs (lower ''/etc/passwd'') (adr_files (adrs example_adrs)) = [] \<and>
   get_adr example_adrs ''/etc/passwd'' \<noteq>
     Inr (''No ADR found matching '' @ quote @ ''/etc/passwd'' @ quote @ ''.'') \<and>
   get_adr example_adrs ''/etc/passwd'' = Inl NotImplementedError"
  by code_simp

text \<open>
  C9. The identifier goes unchecked into the glob pattern of the numeric stage. An
  identifier of four or more characters that starts with \<open>/\<close> makes the pattern one that
  starts at the file-system root, and \<open>get_adr\<close> ends with \<open>NotImplementedError\<close> instead
  of a returned text.
\<close>

theorem get_adr_absolute_pattern_raises:
  "get_adr example_adrs ''/etc/passwd'' = Inl NotImplementedError"
  by code_simp

section \<open>Full-text search: proofs\<close>

lemma contains_sublist: "contains s q \<longleftrightarrow> sublist q s"
  by (induction s) (simp_all add: sublist_Cons_right)

lemma sublist_map: "sublist l s \<Longrightarrow> sublist (map f l) (map f s)"
  unfolding sublist_def by (metis map_append)

lemma splitlines_from_sublist:
  "l \<in> set (splitlines_from cur s) \<Longrightarrow> sublist l (cur @ s)"
proof (induction cur s rule: splitlines_from.induct)
  case (1 cur)
  then show ?case by (auto split: if_splits)
next
  case (2 cur c cs)
  have cur: "sublist cur (cur @ c # cs)"
    by (metis prefixI prefix_imp_sublist)
  have tail: "\<And>t. sublist l t \<Longrightarrow> suffix t (c # cs) \<Longrightarrow> sublist l (cur @ c # cs)"
    by (meson sublist_order.order.trans suffix_imp_sublist sublist_append_leftI suffix_appendI)
  show ?case
  proof (cases "c = CHR 0x0D")
    case True
    show ?thesis
    proof (cases cs)
      case Nil
      with True 2 cur show ?thesis by auto
    next
      case (Cons d ds)
      show ?thesis
      proof (cases "d = CHR 0x0A")
        case dn: True
        from "2.prems" True Cons dn have "l = cur \<or> l \<in> set (splitlines_from [] ds)" by simp
        then show ?thesis
        proof
          assume "l = cur" with cur show ?thesis by simp
        next
          assume "l \<in> set (splitlines_from [] ds)"
          then have "sublist l ds" using "2.IH"(2) [OF True Cons dn] by simp
          then show ?thesis
            by (rule tail) (simp add: Cons suffix_Cons)
        qed
      next
        case dn: False
        from "2.prems" True Cons dn have "l = cur \<or> l \<in> set (splitlines_from [] cs)" by simp
        then show ?thesis
        proof
          assume "l = cur" with cur show ?thesis by simp
        next
          assume "l \<in> set (splitlines_from [] cs)"
          then have "sublist l cs" using "2.IH"(3) [OF True Cons dn] by simp
          then show ?thesis
            by (rule tail) (simp add: suffix_Cons)
        qed
      qed
    qed
  next
    case False
    show ?thesis
    proof (cases "is_linebreak c")
      case lb: True
      from "2.prems" False lb have "l = cur \<or> l \<in> set (splitlines_from [] cs)" by simp
      then show ?thesis
      proof
        assume "l = cur" with cur show ?thesis by simp
      next
        assume "l \<in> set (splitlines_from [] cs)"
        then have "sublist l cs" using "2.IH"(4) [OF False lb] by simp
        then show ?thesis
          by (rule tail) (simp add: suffix_Cons)
      qed
    next
      case lb: False
      from "2.prems" False lb have "l \<in> set (splitlines_from (cur @ [c]) cs)" by simp
      then show ?thesis using "2.IH"(5) [OF False lb] by simp
    qed
  qed
qed

lemma line_hit_content:
  "l \<in> set (splitlines content) \<Longrightarrow> contains (lower l) q \<Longrightarrow> contains (lower content) q"
proof -
  assume l: "l \<in> set (splitlines content)" and h: "contains (lower l) q"
  from l have "sublist l content"
    using splitlines_from_sublist [of l "[]" content] by (simp add: splitlines_def)
  then have "sublist (lower l) (lower content)"
    unfolding lower_def by (rule sublist_map)
  with h show ?thesis
    unfolding contains_sublist by (meson sublist_order.order.trans)
qed

lemma first_hit_index:
  "first_hit q k lines = map_option (\<lambda>i. k + i) (hit_index q lines)"
proof (induction lines arbitrary: k)
  case Nil
  show ?case by (simp add: hit_index_def)
next
  case (Cons l lines)
  show ?case
    using Cons.IH [of "Suc k"]
    by (auto simp: hit_index_def Let_def split: if_splits)
qed

lemma hit_index_line:
  "hit_index q lines = Some i \<Longrightarrow> i < length lines \<and> contains (lower (lines ! i)) q"
  using nth_length_takeWhile [of "\<lambda>l. \<not> contains (lower l) q" lines]
  by (auto simp: hit_index_def Let_def split: if_splits)

lemma slice_context:
  "i < length lines \<Longrightarrow>
     take (min (length lines) (i + 2) - (i - 1)) (drop (i - 1) lines) = context_lines lines i"
proof (cases i)
  case 0
  assume "i < length lines"
  with 0 show ?thesis
    by (cases lines; cases "tl lines") (auto simp: context_lines_def)
next
  case (Suc j)
  assume n: "i < length lines"
  have d: "drop j lines = lines ! j # lines ! Suc j # drop (Suc (Suc j)) lines"
    using n Suc by (simp add: Cons_nth_drop_Suc)
  show ?thesis
  proof (cases "Suc (Suc j) < length lines")
    case True
    then have "drop (Suc (Suc j)) lines = lines ! Suc (Suc j) # drop (Suc (Suc (Suc j))) lines"
      by (simp add: Cons_nth_drop_Suc)
    with True d Suc show ?thesis
      by (simp add: context_lines_def min_def)
  next
    case False
    with n Suc have "drop (Suc (Suc j)) lines = []" by simp
    with False d Suc n show ?thesis
      by (simp add: context_lines_def min_def)
  qed
qed

lemma search_file_excerpt:
  "search_file q f results = results @ doc_excerpt q f"
proof (cases "snd f")
  case None
  then show ?thesis by (simp add: search_file_def doc_excerpt_def)
next
  case (Some content)
  show ?thesis
  proof (cases "hit_index q (splitlines content)")
    case None
    then show ?thesis
      by (simp add: search_file_def doc_excerpt_def Some first_hit_index)
  next
    case hit: (Some i)
    from hit_index_line [OF hit] have i: "i < length (splitlines content)"
      and h: "contains (lower (splitlines content ! i)) q" by simp_all
    have c: "contains (lower content) q"
      by (rule line_hit_content [OF nth_mem [OF i] h])
    show ?thesis
      using c slice_context [OF i]
      by (simp add: search_file_def doc_excerpt_def Some hit first_hit_index
            excerpt_block_def Let_def)
  qed
qed

lemma search_loop_excerpts:
  "search_loop q fs results = results @ concat (map (doc_excerpt q) fs)"
  by (induction fs arbitrary: results) (simp_all add: search_file_excerpt)

text \<open>
  C5, as amended. The search goes through the standards document, the architecture
  document, the templates readme and then the decision records in file-name order, and
  gives at most one excerpt for each. A document gives an excerpt exactly when one of its
  lines holds the lowered query in its lowered text: the excerpt is the first such line
  with the line before it and the line after it, where they exist, under the document's
  path relative to the root and the line's number counted from one. The excerpts are joined
  by an empty line; when no document has such a line the result is the no-results message
  that quotes the query. A query that a document holds only across a line boundary finds
  nothing there.
\<close>

theorem search_governance_excerpts:
  "search_governance r query =
     Inr (if concat (map (doc_excerpt (lower query)) (search_list r)) = []
          then ''No results for '' @ quote @ query @ quote @ ''.''
          else join ''\<newline>\<newline>'' (concat (map (doc_excerpt (lower query)) (search_list r))))"
  by (simp add: search_governance_def glob_adr_pattern search_loop_excerpts search_list_def
        search_files_def adr_files_def Let_def)

text \<open>
  A query in the third line of the standards document and in the first line of a decision
  record: two excerpts, the second clamped at the start of its file.
\<close>

theorem search_governance_excerpts_witness:
  "search_governance example_adrs ''FORMAL'' =
     Inr (''**STANDARDS.md** (line 3):\<newline>'' @
          ''```\<newline>'' @
          ''\<newline>'' @
          ''## 15. Formal Methods\<newline>'' @
          ''\<newline>'' @
          ''```\<newline>'' @
          ''\<newline>'' @
          ''**adrs/0019-formal-methods.md** (line 1):\<newline>'' @
          ''```\<newline>'' @
          ''# ADR-0019: Formal Methods\<newline>'' @
          ''\<newline>'' @
          ''```'')"
proof -
  have e: "(if concat (map (doc_excerpt (lower ''FORMAL'')) (search_list example_adrs)) = []
            then ''No results for '' @ quote @ ''FORMAL'' @ quote @ ''.''
            else join ''\<newline>\<newline>''
                   (concat (map (doc_excerpt (lower ''FORMAL'')) (search_list example_adrs)))) =
           ''**STANDARDS.md** (line 3):\<newline>'' @
           ''```\<newline>'' @
           ''\<newline>'' @
           ''## 15. Formal Methods\<newline>'' @
           ''\<newline>'' @
           ''```\<newline>'' @
           ''\<newline>'' @
           ''**adrs/0019-formal-methods.md** (line 1):\<newline>'' @
           ''```\<newline>'' @
           ''# ADR-0019: Formal Methods\<newline>'' @
           ''\<newline>'' @
           ''```''"
    by code_simp
  show ?thesis
    using search_governance_excerpts [of example_adrs "''FORMAL''"] unfolding e .
qed

text \<open>
  C5 as it was stated fails for a query with a line break: the lowered standards document
  holds the lowered query, and the search reports no result.
\<close>

theorem search_governance_multiline_counterexample:
  "standards example_adrs =
     Some ''# Standards\<newline>\<newline>## 15. Formal Methods\<newline>\<newline>Governed by ADR-0019.\<newline>'' \<and>
   contains
     (lower ''# Standards\<newline>\<newline>## 15. Formal Methods\<newline>\<newline>Governed by ADR-0019.\<newline>'')
     (lower ''Methods\<newline>\<newline>Governed'') \<and>
   search_governance example_adrs ''Methods\<newline>\<newline>Governed'' =
     Inr (''No results for '' @ quote @ ''Methods\<newline>\<newline>Governed'' @ quote @ ''.'')"
  by code_simp

section \<open>Compliance checker: proofs\<close>

lemma check_required_sorted:
  "sorted_report st \<Longrightarrow> sorted_report (check_required repo fnames st)"
proof (induction fnames arbitrary: st)
  case Nil
  then show ?case by simp
next
  case (Cons fname rest)
  obtain findings passes where st: "st = (findings, passes)" by (cases st)
  have a: "sorted_report (findings, passes @ [''PASS: '' @ fname @ '' exists''])"
    and b: "sorted_report (findings @ [''FAIL: '' @ fname @ '' missing''], passes)"
    using Cons.prems by (auto simp: st sorted_report_def is_finding_def is_pass_def)
  show ?case unfolding st using Cons.IH [OF a] Cons.IH [OF b] by simp
qed

lemma check_ci_steps_sorted:
  "sorted_report st \<Longrightarrow> sorted_report (check_ci_steps ci steps st)"
proof (induction steps arbitrary: st)
  case Nil
  then show ?case by simp
next
  case (Cons step rest)
  obtain findings passes where st: "st = (findings, passes)" by (cases st)
  have a: "sorted_report
             (findings, passes @ [''PASS: CI contains '' @ quote @ step @ quote @ '' step''])"
    and b: "sorted_report
             (findings @ [''FAIL: CI workflow missing expected step '' @ quote @ step @ quote],
              passes)"
    using Cons.prems by (auto simp: st sorted_report_def is_finding_def is_pass_def)
  show ?case unfolding st using Cons.IH [OF a] Cons.IH [OF b] by simp
qed

lemma check_naming_sorted: "sorted_report st \<Longrightarrow> sorted_report (check_naming n st)"
  by (cases st) (auto simp: check_naming_def sorted_report_def is_finding_def is_pass_def)

lemma check_cargo_license_sorted:
  "sorted_report st \<Longrightarrow> sorted_report (check_cargo_license repo st)"
  by (cases st)
     (auto simp: check_cargo_license_def sorted_report_def is_finding_def is_pass_def
           split: option.splits)

lemma check_lib_rs_sorted: "sorted_report st \<Longrightarrow> sorted_report (check_lib_rs repo st)"
  by (cases st)
     (auto simp: check_lib_rs_def sorted_report_def is_finding_def is_pass_def
           split: option.splits)

lemma check_pyproject_sorted: "sorted_report st \<Longrightarrow> sorted_report (check_pyproject repo st)"
  by (cases st)
     (auto simp: check_pyproject_def sorted_report_def is_finding_def is_pass_def Let_def
           split: option.splits)

lemma check_drift_sorted: "sorted_report st \<Longrightarrow> sorted_report (check_drift repo t st)"
  by (cases st)
     (auto simp: check_drift_def sorted_report_def is_finding_def is_pass_def
           split: option.splits)

lemma check_ci_sorted: "sorted_report st \<Longrightarrow> sorted_report (check_ci repo j ss st)"
proof -
  assume h: "sorted_report st"
  obtain findings passes where st: "st = (findings, passes)" by (cases st)
  show ?thesis
  proof (cases "repo ''.github/workflows/ci.yaml''")
    case None
    then show ?thesis using h by (simp add: check_ci_def st)
  next
    case (Some ci)
    have "sorted_report
            (if contains ci (''  '' @ j @ '':'')
             then (findings, passes @ [''PASS: CI job name is '' @ quote @ j @ quote])
             else (findings @ [''FAIL: CI workflow missing expected job name '' @ quote @ j @ quote],
                   passes))"
      using h by (auto simp: st sorted_report_def is_finding_def is_pass_def)
    then show ?thesis
      by (simp add: check_ci_def st Some check_ci_steps_sorted)
  qed
qed

lemma run_checks_sorted:
  "sorted_report (run_checks repo t n ty tf j ss)"
proof -
  have 0: "sorted_report ([], [])" by (simp add: sorted_report_def)
  show ?thesis
    unfolding run_checks_def Let_def
    by (intro check_ci_sorted check_drift_sorted)
       (auto intro!: check_pyproject_sorted check_lib_rs_sorted check_cargo_license_sorted
          check_naming_sorted check_required_sorted 0)
qed

lemma valid_type_tables:
  "repo_type \<in> set [''rust'', ''python'', ''governance''] \<Longrightarrow>
     map_of TYPE_FILES repo_type = Some (type_files_of repo_type) \<and>
     map_of CI_EXPECTED_JOB repo_type = Some (expected_job_of repo_type) \<and>
     map_of CI_EXPECTED_STEPS repo_type = Some (expected_steps_of repo_type)"
  by (auto simp: TYPE_FILES_def CI_EXPECTED_JOB_def CI_EXPECTED_STEPS_def type_files_of_def
        expected_job_of_def expected_steps_of_def)

text \<open>
  C4. For an existing target directory and a valid project type the report is the two
  header lines and an empty line, then, when there is a finding, the heading
  \<open>## Issues (n)\<close> with the number of findings, the findings and an empty line, then the
  heading \<open>## Passed (m)\<close> with the number of passes and the passes. Every finding is a
  \<open>FAIL\<close> or \<open>WARN\<close> line and every pass a \<open>PASS\<close> line; with no finding the Issues
  heading is absent.
\<close>

theorem check_repo_compliance_report:
  "fs repo_path = Directory repo \<and> repo_type \<in> set [''rust'', ''python'', ''governance''] \<longrightarrow>
     check_repo_compliance fs r repo_path repo_type =
       Inr (join ''\<newline>''
              ([''# Compliance Report'',
                ''Repo: '' @ path_name repo_path @ '' ('' @ repo_type @ '')'', ''''] @
               (if fst (compliance_lines repo r repo_path repo_type) = [] then []
                else [''## Issues ('' @
                      str_nat (length (fst (compliance_lines repo r repo_path repo_type))) @
                      '')''] @
                     fst (compliance_lines repo r repo_path repo_type) @ ['''']) @
               [''## Passed ('' @
                str_nat (length (snd (compliance_lines repo r repo_path repo_type))) @ '')''] @
               snd (compliance_lines repo r repo_path repo_type))) \<and>
     list_all is_finding (fst (compliance_lines repo r repo_path repo_type)) \<and>
     list_all is_pass (snd (compliance_lines repo r repo_path repo_type))"
proof (intro impI, elim conjE)
  assume d: "fs repo_path = Directory repo"
    and t: "repo_type \<in> set [''rust'', ''python'', ''governance'']"
  note tabs = valid_type_tables [OF t]
  have s: "sorted_report (compliance_lines repo r repo_path repo_type)"
    unfolding compliance_lines_def by (rule run_checks_sorted)
  have "check_repo_compliance fs r repo_path repo_type =
          Inr (build_report (path_name repo_path) repo_type
                 (compliance_lines repo r repo_path repo_type))"
    using t d tabs by (simp add: check_repo_compliance_def compliance_lines_def)
  then show "check_repo_compliance fs r repo_path repo_type =
       Inr (join ''\<newline>''
              ([''# Compliance Report'',
                ''Repo: '' @ path_name repo_path @ '' ('' @ repo_type @ '')'', ''''] @
               (if fst (compliance_lines repo r repo_path repo_type) = [] then []
                else [''## Issues ('' @
                      str_nat (length (fst (compliance_lines repo r repo_path repo_type))) @
                      '')''] @
                     fst (compliance_lines repo r repo_path repo_type) @ ['''']) @
               [''## Passed ('' @
                str_nat (length (snd (compliance_lines repo r repo_path repo_type))) @ '')''] @
               snd (compliance_lines repo r repo_path repo_type))) \<and>
     list_all is_finding (fst (compliance_lines repo r repo_path repo_type)) \<and>
     list_all is_pass (snd (compliance_lines repo r repo_path repo_type))"
    using s by (simp add: build_report_def sorted_report_def split: prod.splits)
qed


text \<open>
  The report for a governance project in a directory that holds a license file only.
\<close>

theorem check_repo_compliance_report_witness:
  "example_fs ''/work/bad-name'' =
     Directory (tree_of [(''LICENSE'', ''Apache License 2.0'')]) \<and>
   ''governance'' \<in> set [''rust'', ''python'', ''governance''] \<and>
   check_repo_compliance example_fs example_root ''/work/bad-name'' ''governance'' =
     Inr (''# Compliance Report\<newline>'' @
          ''Repo: bad-name (governance)\<newline>'' @
          ''\<newline>'' @
          ''## Issues (11)\<newline>'' @
          ''FAIL: CHANGELOG.md missing\<newline>'' @
          ''FAIL: CLAUDE.md missing\<newline>'' @
          ''FAIL: SECURITY.md missing\<newline>'' @
          ''FAIL: .markdownlint.yaml missing\<newline>'' @
          ''FAIL: .pre-commit-config.yaml missing\<newline>'' @
          ''FAIL: .github/pull_request_template.md missing\<newline>'' @
          ''FAIL: .github/ISSUE_TEMPLATE/config.yml missing\<newline>'' @
          ''FAIL: .github/workflows/ci.yaml missing\<newline>'' @
          ''FAIL: .github/ISSUE_TEMPLATE/adr-proposal.md missing\<newline>'' @
          ''FAIL: .github/ISSUE_TEMPLATE/rfc-proposal.md missing\<newline>'' @
          ''WARN: Repo name '' @ quote @ ''bad-name'' @ quote @ '' does not start with '' @
          quote @ ''aces-'' @ quote @ ''\<newline>'' @
          ''\<newline>'' @
          ''## Passed (1)\<newline>'' @
          ''PASS: LICENSE exists'')"
proof -
  have d: "example_fs ''/work/bad-name'' =
     Directory (tree_of [(''LICENSE'', ''Apache License 2.0'')])"
    by (simp add: example_fs_def)
  have t: "''governance'' \<in> set [''rust'', ''python'', ''governance'']"
    by simp
  have n: "path_name ''/work/bad-name'' = ''bad-name''"
    by code_simp
  have l: "compliance_lines (tree_of [(''LICENSE'', ''Apache License 2.0'')]) example_root
             ''/work/bad-name'' ''governance'' =
           ([''FAIL: CHANGELOG.md missing'',
             ''FAIL: CLAUDE.md missing'',
             ''FAIL: SECURITY.md missing'',
             ''FAIL: .markdownlint.yaml missing'',
             ''FAIL: .pre-commit-config.yaml missing'',
             ''FAIL: .github/pull_request_template.md missing'',
             ''FAIL: .github/ISSUE_TEMPLATE/config.yml missing'',
             ''FAIL: .github/workflows/ci.yaml missing'',
             ''FAIL: .github/ISSUE_TEMPLATE/adr-proposal.md missing'',
             ''FAIL: .github/ISSUE_TEMPLATE/rfc-proposal.md missing'',
             ''WARN: Repo name '' @ quote @ ''bad-name'' @ quote @ '' does not start with '' @
             quote @ ''aces-'' @ quote],
            [''PASS: LICENSE exists''])"
    by code_simp
  have s11: "str_nat (Suc (Suc (Suc (Suc (Suc (Suc (Suc (Suc (Suc (Suc (Suc 0))))))))))) = ''11''"
    and s1: "str_nat (Suc 0) = ''1''"
    by code_simp+
  show ?thesis
    using check_repo_compliance_report
      [of example_fs "''/work/bad-name''" "tree_of [(''LICENSE'', ''Apache License 2.0'')]"
          "''governance''" example_root]
      d n l s11 s1
    by (simp add: quote_def)
qed






section \<open>Dependency direction: proofs\<close>




section \<open>Proposal issue filer: proofs\<close>

lemma digit_not_space: "isdigit c \<Longrightarrow> \<not> isspace c"
  by (auto simp: isdigit_def isspace_def less_eq_char_def)

lemma digit_not_sign: "isdigit c \<Longrightarrow> c \<noteq> CHR ''-'' \<and> c \<noteq> CHR ''+'' \<and> c \<noteq> CHR ''_''"
  by (auto simp: isdigit_def less_eq_char_def)

lemma strip_no_space: "list_all (\<lambda>c. \<not> isspace c) s \<Longrightarrow> strip s = s"
proof (cases s rule: rev_cases)
  case Nil
  then show ?thesis by (simp add: strip_def)
next
  case (snoc ys y)
  assume a: "list_all (\<lambda>c. \<not> isspace c) s"
  then have "dropWhile isspace s = s"
    by (cases s) simp_all
  moreover have "dropWhile isspace (rev s) = rev s"
    using a snoc by simp
  ultimately show ?thesis by (simp add: strip_def)
qed

lemma py_int_digits:
  "ds \<noteq> [] \<Longrightarrow> list_all isdigit ds \<Longrightarrow> py_int ds = Inr (int (digits_value ds))"
proof -
  assume n: "ds \<noteq> []" and d: "list_all isdigit ds"
  have s: "strip ds = ds"
    using d by (intro strip_no_space) (auto simp: list_all_iff digit_not_space)
  have h: "\<not> prefix ''-'' ds" "\<not> prefix ''+'' ds"
    using n d digit_not_sign by (cases ds; auto)+
  have u: "split_on (CHR ''_'') ds = [ds]"
    using d digit_not_sign by (intro split_on_absent) (auto simp: list_all_iff)
  show ?thesis
    using n d by (simp add: py_int_def s h u)
qed

lemma foldl_digits:
  "foldl (\<lambda>a c. 10 * a + digit_value c) a cs =
     a * 10 ^ length cs + foldl (\<lambda>a c. 10 * a + digit_value c) 0 cs"
proof (induction cs arbitrary: a)
  case Nil
  show ?case by simp
next
  case (Cons c cs)
  show ?case
    using Cons.IH [of "10 * a + digit_value c"] Cons.IH [of "digit_value c"]
    by (simp add: algebra_simps)
qed

lemma digits_value_Cons:
  "digits_value (c # cs) = digit_value c * 10 ^ length cs + digits_value cs"
  using foldl_digits [of "digit_value c" cs] by (simp add: digits_value_def)

lemma digits_value_snoc:
  "digits_value (cs @ [c]) = 10 * digits_value cs + digit_value c"
  by (simp add: digits_value_def)

lemma digit_value_bound: "isdigit c \<Longrightarrow> digit_value c < 10"
  by (auto simp: isdigit_def digit_value_def less_eq_char_def)

lemma digits_value_bound: "list_all isdigit cs \<Longrightarrow> digits_value cs < 10 ^ length cs"
proof (induction cs)
  case Nil
  show ?case by (simp add: digits_value_def)
next
  case (Cons c cs)
  then have c: "digit_value c \<le> 9" and r: "digits_value cs < 10 ^ length cs"
    using digit_value_bound [of c] by auto
  have p: "digit_value c * 10 ^ length cs \<le> 9 * 10 ^ length cs"
    using c by (rule mult_le_mono1)
  have v: "digits_value (c # cs) = digit_value c * 10 ^ length cs + digits_value cs"
    by (rule digits_value_Cons)
  have e: "(10::nat) ^ length (c # cs) = 10 * 10 ^ length cs"
    by simp
  show ?case
    unfolding v e using p r by linarith
qed

lemma digit_value_less:
  "isdigit a \<Longrightarrow> isdigit b \<Longrightarrow> a < b \<Longrightarrow> digit_value a < digit_value b"
  by (auto simp: isdigit_def digit_value_def less_eq_char_def less_char_def)

lemma digits_le_value:
  "length xs = length ys \<Longrightarrow> list_all isdigit xs \<Longrightarrow> list_all isdigit ys \<Longrightarrow> xs \<le> ys \<Longrightarrow>
     digits_value xs \<le> digits_value ys"
proof (induction xs ys rule: list_induct2)
  case Nil
  show ?case by simp
next
  case (Cons x xs y ys)
  from Cons.prems have dx: "isdigit x" and dy: "isdigit y"
    and dxs: "list_all isdigit xs" and dys: "list_all isdigit ys" by simp_all
  from Cons.prems(3) have "x < y \<or> (x = y \<and> xs \<le> ys)" by simp
  then show ?case
  proof
    assume "x < y"
    then have "Suc (digit_value x) \<le> digit_value y"
      using digit_value_less [OF dx dy] by simp
    then have "Suc (digit_value x) * 10 ^ length xs \<le> digit_value y * 10 ^ length xs"
      by (rule mult_le_mono1)
    moreover have "digits_value xs < 10 ^ length xs"
      by (rule digits_value_bound [OF dxs])
    ultimately show ?thesis
      using Cons.hyps by (simp add: digits_value_Cons)
  next
    assume "x = y \<and> xs \<le> ys"
    then show ?thesis
      using Cons.IH [OF dxs dys] Cons.hyps by (simp add: digits_value_Cons)
  qed
qed

lemma take_le_mono: "(xs :: string) \<le> ys \<Longrightarrow> take k xs \<le> take k ys"
proof (induction k arbitrary: xs ys)
  case 0
  show ?case by simp
next
  case (Suc k)
  show ?case
  proof (cases xs)
    case Nil
    then show ?thesis by simp
  next
    case xs: (Cons a as)
    show ?thesis
    proof (cases ys)
      case Nil
      with Suc.prems xs show ?thesis by simp
    next
      case ys: (Cons b bs)
      from Suc.prems xs ys have "a < b \<or> (a = b \<and> as \<le> bs)" by simp
      then show ?thesis
        using Suc.IH [of as bs] by (auto simp: xs ys)
    qed
  qed
qed

lemma scheme_prefix:
  "follows_scheme name \<Longrightarrow> length (take 4 name) = 4 \<and> list_all isdigit (take 4 name)"
  by (cases "4 < length name") (auto simp: follows_scheme_def)

lemma adr_number_mono:
  "follows_scheme a \<Longrightarrow> follows_scheme b \<Longrightarrow> a \<le> b \<Longrightarrow> adr_number a \<le> adr_number b"
  unfolding adr_number_def
  using scheme_prefix [of a] scheme_prefix [of b] take_le_mono [of a b 4]
  by (intro digits_le_value) simp_all

lemma sorted_le_last: "sorted xs \<Longrightarrow> x \<in> set xs \<Longrightarrow> x \<le> last (xs :: string list)"
  by (induction xs) auto

lemma last_adr_is_max:
  "adr_files d \<noteq> [] \<Longrightarrow> list_all (\<lambda>e. follows_scheme (fst e)) (adr_files d) \<Longrightarrow>
     adr_number (fst (last (adr_files d))) =
       Max (set (map (\<lambda>e. adr_number (fst e)) (adr_files d)))"
proof -
  assume n: "adr_files d \<noteq> []"
    and a: "list_all (\<lambda>e. follows_scheme (fst e)) (adr_files d)"
  have s: "sorted (map fst (adr_files d))"
    by (simp add: adr_files_def sorted_paths_def)
  have l: "last (adr_files d) \<in> set (adr_files d)"
    using n by simp
  have "Max (set (map (\<lambda>e. adr_number (fst e)) (adr_files d))) =
          adr_number (fst (last (adr_files d)))"
  proof (rule Max_eqI)
    show "finite (set (map (\<lambda>e. adr_number (fst e)) (adr_files d)))"
      by simp
  next
    fix y assume "y \<in> set (map (\<lambda>e. adr_number (fst e)) (adr_files d))"
    then obtain e where e: "e \<in> set (adr_files d)" and y: "y = adr_number (fst e)"
      by auto
    have "fst e \<le> last (map fst (adr_files d))"
      using s e by (intro sorted_le_last) auto
    then have "fst e \<le> fst (last (adr_files d))"
      using n by (simp add: last_map)
    moreover have "follows_scheme (fst e)" "follows_scheme (fst (last (adr_files d)))"
      using a e l by (auto simp: list_all_iff)
    ultimately show "y \<le> adr_number (fst (last (adr_files d)))"
      unfolding y by (intro adr_number_mono)
  next
    show "adr_number (fst (last (adr_files d))) \<in>
            set (map (\<lambda>e. adr_number (fst e)) (adr_files d))"
      using l by auto
  qed
  then show ?thesis by simp
qed

lemma digit_char_value: "d < 10 \<Longrightarrow> digit_value (digit_char d) = d \<and> isdigit (digit_char d)"
  by (auto simp: digit_value_def digit_char_def isdigit_def less_eq_char_def)

lemma str_nat_digits:
  "list_all isdigit (str_nat n) \<and> str_nat n \<noteq> [] \<and> digits_value (str_nat n) = n"
proof (induction n rule: str_nat.induct)
  case (1 n)
  show ?case
  proof (cases "n < 10")
    case True
    then show ?thesis
      using digit_char_value [of n]
      by (simp add: str_nat.simps [of n] digits_value_def)
  next
    case False
    have m: "n mod 10 < 10" by simp
    show ?thesis
      using False "1.IH" [OF False] digit_char_value [OF m]
      by (simp add: str_nat.simps [of n] digits_value_snoc)
  qed
qed

lemma format_04d_nonneg:
  "0 \<le> n \<Longrightarrow>
     format_04d n = replicate (4 - length (str_nat (nat n))) (CHR ''0'') @ str_nat (nat n)"
proof -
  assume n: "0 \<le> n"
  obtain c cs where s: "str_nat (nat n) = c # cs"
    using str_nat_digits [of "nat n"] by (cases "str_nat (nat n)") auto
  have "isdigit c"
    using str_nat_digits [of "nat n"] s by simp
  then have "c \<noteq> CHR ''+'' \<and> c \<noteq> CHR ''-''"
    using digit_not_sign by blast
  then show ?thesis
    using n by (auto simp: format_04d_def str_int_def zfill_def s)
qed

lemma next_adr_number_value:
  "list_all (\<lambda>e. follows_scheme (fst e)) (adr_files (adrs r)) \<Longrightarrow>
     next_adr_number r = Inr (next_number (adrs r))"
proof (cases "adr_files (adrs r)")
  case Nil
  then show ?thesis
    by (simp add: next_adr_number_def glob_adr_pattern next_number_def adr_files_def)
next
  case (Cons e es)
  assume a: "list_all (\<lambda>e. follows_scheme (fst e)) (adr_files (adrs r))"
  have n: "adr_files (adrs r) \<noteq> []" using Cons by simp
  have "follows_scheme (fst (last (adr_files (adrs r))))"
    using a n by (auto simp: list_all_iff)
  from scheme_prefix [OF this]
  have p: "py_int (take 4 (fst (last (adr_files (adrs r))))) =
             Inr (int (adr_number (fst (last (adr_files (adrs r))))))"
    unfolding adr_number_def by (intro py_int_digits) auto
  have "next_adr_number r = Inr (int (adr_number (fst (last (adr_files (adrs r))))) + 1)"
    using p Cons by (simp add: next_adr_number_def glob_adr_pattern adr_files_def)
  then show ?thesis
    using n by (simp add: next_number_def last_adr_is_max [OF n a])
qed

text \<open>
  C6. When the decision-record files follow the naming scheme of four digits, a dash, a
  slug and \<open>.md\<close>, the number \<open>propose_adr\<close> computes is one more than the highest four-digit
  prefix among them, and one when there is no such file. The issue body that goes to the
  external command starts with \<open>## Proposed ADR-\<close>, this number padded with zeros to four
  digits, a colon and the title, for every title, context and decision text. The call
  returns the text for the command's outcome and leaves the governance directory as it was.
\<close>

theorem propose_adr_next_number:
  "list_all (\<lambda>e. follows_scheme (fst e)) (adr_files (adrs r)) \<longrightarrow>
     next_adr_number r = Inr (next_number (adrs r)) \<and>
     propose_adr r gh title context decision =
       Inr (outcome_text
              (gh (gh_command (''ADR Proposal: '' @ title)
                     (issue_body (next_number (adrs r)) title context decision))), r) \<and>
     prefix (''## Proposed ADR-'' @ format_04d (next_number (adrs r)) @ '': '' @ title)
       (issue_body (next_number (adrs r)) title context decision) \<and>
     format_04d (next_number (adrs r)) =
       replicate (4 - length (str_nat (nat (next_number (adrs r))))) (CHR ''0'') @
       str_nat (nat (next_number (adrs r))) \<and>
     int (digits_value (str_nat (nat (next_number (adrs r))))) = next_number (adrs r)"
proof
  assume a: "list_all (\<lambda>e. follows_scheme (fst e)) (adr_files (adrs r))"
  have n: "next_adr_number r = Inr (next_number (adrs r))"
    by (rule next_adr_number_value [OF a])
  have z: "0 \<le> next_number (adrs r)"
    by (simp add: next_number_def)
  have b: "prefix (''## Proposed ADR-'' @ format_04d (next_number (adrs r)) @ '': '' @ title)
       (issue_body (next_number (adrs r)) title context decision)"
    by (simp add: issue_body_def)
  show "next_adr_number r = Inr (next_number (adrs r)) \<and>
     propose_adr r gh title context decision =
       Inr (outcome_text
              (gh (gh_command (''ADR Proposal: '' @ title)
                     (issue_body (next_number (adrs r)) title context decision))), r) \<and>
     prefix (''## Proposed ADR-'' @ format_04d (next_number (adrs r)) @ '': '' @ title)
       (issue_body (next_number (adrs r)) title context decision) \<and>
     format_04d (next_number (adrs r)) =
       replicate (4 - length (str_nat (nat (next_number (adrs r))))) (CHR ''0'') @
       str_nat (nat (next_number (adrs r))) \<and>
     int (digits_value (str_nat (nat (next_number (adrs r))))) = next_number (adrs r)"
    using n b format_04d_nonneg [OF z] z
    by (simp add: propose_adr_def str_nat_digits)
qed

text \<open>
  With the records 0001 and 0019 (and a template file beside them) the next number is 20
  and the body starts with \<open>## Proposed ADR-0020\<close>; with no record it is 0001.
\<close>

theorem propose_adr_next_number_witness:
  "list_all (\<lambda>e. follows_scheme (fst e)) (adr_files (adrs example_adrs)) \<and>
   next_adr_number example_adrs = Inr 20 \<and>
   format_04d 20 = ''0020'' \<and>
   propose_adr example_adrs example_gh ''Next ADR'' ''Context.'' ''Decision.'' =
     Inr (''Issue created: https://github.com/aces-framework/aces/issues/42'',
          example_adrs) \<and>
   prefix ''## Proposed ADR-0020: Next ADR''
     (issue_body 20 ''Next ADR'' ''Context.'' ''Decision.'') \<and>
   adrs example_root = [] \<and>
   next_adr_number example_root = Inr 1 \<and>
   format_04d 1 = ''0001''"
proof -
  have a: "list_all (\<lambda>e. follows_scheme (fst e)) (adr_files (adrs example_adrs))"
    by code_simp
  have n: "next_number (adrs example_adrs) = 20"
    by code_simp
  have f: "format_04d 20 = ''0020''" "format_04d 1 = ''0001''"
    by code_simp+
  have o: "outcome_text (example_gh (gh_command (''ADR Proposal: '' @ ''Next ADR'')
             (issue_body 20 ''Next ADR'' ''Context.'' ''Decision.''))) =
           ''Issue created: https://github.com/aces-framework/aces/issues/42''"
    unfolding example_gh_def by code_simp
  have d: "adrs example_root = []"
    by (simp add: example_root_def)
  have e: "list_all (\<lambda>e. follows_scheme (fst e)) (adr_files (adrs example_root))"
    by code_simp
  have n0: "next_number (adrs example_root) = 1"
    by code_simp
  note t = propose_adr_next_number
      [of example_adrs example_gh "''Next ADR''" "''Context.''" "''Decision.''",
       THEN mp, OF a, unfolded n]
  note t0 = propose_adr_next_number [of example_root example_gh "[]" "[]" "[]", THEN mp, OF e,
       unfolded n0]
  have p: "prefix ''## Proposed ADR-0020: Next ADR''
     (issue_body 20 ''Next ADR'' ''Context.'' ''Decision.'')"
    using t [THEN conjunct2, THEN conjunct2, THEN conjunct1] unfolding f by simp
  show ?thesis
    using a t [THEN conjunct1] t [THEN conjunct2, THEN conjunct1, unfolded o] f p d
      t0 [THEN conjunct1]
    by (intro conjI)
qed

end
